theory Spec2Isabelle
  imports Main "HOL-Library.Word" "HOL-Library.Char_ord" "HOL-Library.List_Lexorder"
begin

section \<open>Data model of Warehouse.h\<close>

text \<open>
  \<^verbatim>\<open>struct Product\<close>: three \<^verbatim>\<open>std::string\<close> fields and an \<^verbatim>\<open>unsigned\<close> price.
  The field \<^verbatim>\<open>id\<close> is written \<open>id'\<close>, since \<open>id\<close> is the identity function of HOL.
  Strings are ordered as \<^verbatim>\<open>std::string::operator<\<close> orders them: lexicographically,
  characters by their byte value.
\<close>

record Product =
  id' :: string
  producer :: string
  name :: string
  price :: "32 word"

text \<open>
  \<^verbatim>\<open>using ProductPtr = std::shared_ptr<const Product>\<close>. A handle is either empty or
  holds the address of a product together with the product found there. The pointee
  is \<^verbatim>\<open>const\<close> through the handle and the warehouse never writes to it, so the pointee
  travels with the address. Two handles are the same pointer only when the addresses
  agree: a copy of a product at another address is another handle.
\<close>

datatype ProductPtr = Null | Ptr nat Product

fun id_of :: "ProductPtr \<Rightarrow> string" where
  "id_of (Ptr a p) = id' p"
| "id_of Null = []"

fun producer_of :: "ProductPtr \<Rightarrow> string" where
  "producer_of (Ptr a p) = producer p"
| "producer_of Null = []"

text \<open>
  \<^verbatim>\<open>std::multimap<Product::Producer, ProductPtr> mProductsByProducer\<close>: a node-based
  container kept in key order, elements with equal keys in the order of their insertion.
  A node has an identity (its address), which is what an iterator holds, and the pair
  \<^verbatim>\<open>first\<close>, \<^verbatim>\<open>second\<close>.
\<close>

record Node =
  node :: nat
  first :: string
  second :: ProductPtr

type_synonym multimap = "Node list"

text \<open>
  \<^verbatim>\<open>decltype(mProductsByProducer)::const_iterator\<close>: value-initialised (singular), or
  pointing to a node.
\<close>

datatype const_iterator = Singular | Iter nat

record Meta =
  it_productsByProducer :: const_iterator

record ProductWithMeta =
  pProduct :: ProductPtr
  meta :: Meta

text \<open>The constructor \<^verbatim>\<open>ProductWithMeta(ProductPtr _pProduct): pProduct(_pProduct){}\<close>.\<close>

definition ProductWithMeta_ctor :: "ProductPtr \<Rightarrow> ProductWithMeta" where
  "ProductWithMeta_ctor p = \<lparr>pProduct = p, meta = \<lparr>it_productsByProducer = Singular\<rparr>\<rparr>"

text \<open>
  The two containers of \<^verbatim>\<open>class Warehouse\<close>;
  \<^verbatim>\<open>std::unordered_map<Product::Id, ProductWithMeta>\<close> is a map with unique keys.
  The member \<^verbatim>\<open>mMutex\<close> is not part of the state: every public method holds it from
  its first statement to its return, and a method is modelled as it runs under the lock,
  as one function from the state before to the result and the state after.
\<close>

record Warehouse =
  mProductsByProducer :: multimap
  mProductsWithMetasById :: "string \<rightharpoonup> ProductWithMeta"

definition empty_warehouse :: Warehouse where
  "empty_warehouse = \<lparr>mProductsByProducer = [], mProductsWithMetasById = Map.empty\<rparr>"

datatype error = AssertionFailed | UndefinedBehaviour

section \<open>The container operations the class uses\<close>

text \<open>
  The identity of a newly allocated node differs from the identity of every node
  in the container.
\<close>

definition fresh_node :: "multimap \<Rightarrow> nat" where
  "fresh_node m = Suc (foldr (\<lambda>e n. max (node e) n) m 0)"

text \<open>
  \<^verbatim>\<open>std::multimap::emplace\<close>: the new element goes to the upper bound of the elements
  with an equivalent key, and the iterator to it is returned.
\<close>

fun multimap_insert :: "Node \<Rightarrow> multimap \<Rightarrow> multimap" where
  "multimap_insert n [] = [n]"
| "multimap_insert n (e # es) =
     (if first n < first e then n # e # es else e # multimap_insert n es)"

definition multimap_emplace :: "string \<Rightarrow> ProductPtr \<Rightarrow> multimap \<Rightarrow> const_iterator \<times> multimap" where
  "multimap_emplace k v m =
     (let n = fresh_node m
      in (Iter n, multimap_insert \<lparr>node = n, first = k, second = v\<rparr> m))"

text \<open>
  \<^verbatim>\<open>std::multimap::equal_range\<close>: the elements from the first one whose key is not less
  than \<open>k\<close> up to the first one whose key is greater than \<open>k\<close>.
\<close>

definition multimap_equal_range :: "string \<Rightarrow> multimap \<Rightarrow> Node list" where
  "multimap_equal_range k m =
     takeWhile (\<lambda>e. \<not> k < first e) (dropWhile (\<lambda>e. first e < k) m)"

text \<open>
  \<^verbatim>\<open>std::multimap::erase(const_iterator)\<close>: removes the node the iterator points to.
  The behaviour is undefined for an iterator that does not point into the container.
\<close>

definition multimap_erase :: "const_iterator \<Rightarrow> multimap \<Rightarrow> multimap option" where
  "multimap_erase it m =
     (case it of
        Singular \<Rightarrow> None
      | Iter n \<Rightarrow> if n \<in> node ` set m then Some (filter (\<lambda>e. node e \<noteq> n) m) else None)"

text \<open>
  \<^verbatim>\<open>std::unordered_map::emplace\<close>: inserts when the key is new; returns whether it
  inserted.
\<close>

definition unordered_map_emplace ::
  "string \<Rightarrow> ProductWithMeta \<Rightarrow> (string \<rightharpoonup> ProductWithMeta) \<Rightarrow> bool \<times> (string \<rightharpoonup> ProductWithMeta)" where
  "unordered_map_emplace k v m =
     (case m k of Some _ \<Rightarrow> (False, m) | None \<Rightarrow> (True, m(k \<mapsto> v)))"

section \<open>The public methods\<close>

text \<open>
  \<^verbatim>\<open>bool AddProduct(const ProductPtr &pProduct)\<close>. The assertion is the first
  statement; the secondary index is touched only when the primary insertion succeeded,
  and the iterator it returns is stored in the primary entry.
\<close>

definition AddProduct :: "ProductPtr \<Rightarrow> Warehouse \<Rightarrow> error + (bool \<times> Warehouse)" where
  "AddProduct p w =
     (case p of
        Null \<Rightarrow> Inl AssertionFailed
      | Ptr a pr \<Rightarrow>
          (let (success, byId) =
                 unordered_map_emplace (id' pr) (ProductWithMeta_ctor p) (mProductsWithMetasById w)
           in if success
              then (let (it, byProducer) =
                          multimap_emplace (producer pr) p (mProductsByProducer w)
                    in Inr (True,
                         \<lparr>mProductsByProducer = byProducer,
                          mProductsWithMetasById =
                            byId(id' pr \<mapsto>
                              (ProductWithMeta_ctor p)\<lparr>meta := \<lparr>it_productsByProducer = it\<rparr>\<rparr>)\<rparr>))
              else Inr (False, w\<lparr>mProductsWithMetasById := byId\<rparr>)))"

text \<open>\<^verbatim>\<open>ProductPtr FindProductById(const Product::Id &id) const\<close>.\<close>

definition FindProductById :: "string \<Rightarrow> Warehouse \<Rightarrow> ProductPtr" where
  "FindProductById x w =
     (case mProductsWithMetasById w x of None \<Rightarrow> Null | Some e \<Rightarrow> pProduct e)"

text \<open>
  The copying loop of \<^verbatim>\<open>FindProductsByProducer\<close>: each element of the range is written
  through the output iterator (appended to what was written before) and counted. The
  counter is a \<^verbatim>\<open>size_t\<close> that is incremented once per node of the container, which
  holds fewer nodes than \<^verbatim>\<open>size_t\<close> has values; it is a natural number here.
\<close>

fun copy_range :: "Node list \<Rightarrow> ProductPtr list \<Rightarrow> nat \<Rightarrow> nat \<times> ProductPtr list" where
  "copy_range [] out cntFound = (cntFound, out)"
| "copy_range (e # rng) out cntFound = copy_range rng (out @ [second e]) (Suc cntFound)"

text \<open>
  \<^verbatim>\<open>size_t FindProductsByProducer(const Product::Producer &producer, OutputIt out) const\<close>:
  the count returned, and the output after the call.
\<close>

definition FindProductsByProducer ::
  "string \<Rightarrow> ProductPtr list \<Rightarrow> Warehouse \<Rightarrow> nat \<times> ProductPtr list" where
  "FindProductsByProducer p out w =
     copy_range (multimap_equal_range p (mProductsByProducer w)) out 0"

text \<open>\<^verbatim>\<open>size_t RemoveProductById(const Product::Id &id)\<close>.\<close>

definition RemoveProductById :: "string \<Rightarrow> Warehouse \<Rightarrow> error + (nat \<times> Warehouse)" where
  "RemoveProductById x w =
     (case mProductsWithMetasById w x of
        None \<Rightarrow> Inr (0, w)
      | Some e \<Rightarrow>
          (case multimap_erase (it_productsByProducer (meta e)) (mProductsByProducer w) of
             None \<Rightarrow> Inl UndefinedBehaviour
           | Some byProducer \<Rightarrow>
               Inr (1, \<lparr>mProductsByProducer = byProducer,
                        mProductsWithMetasById = (mProductsWithMetasById w)(x := None)\<rparr>)))"

section \<open>Sequences of calls\<close>

datatype call =
    Add ProductPtr
  | FindById string
  | FindByProducer string
  | Remove string

datatype ret =
    RBool bool
  | RPtr ProductPtr
  | RFound nat "ProductPtr list"
  | RCount nat

text \<open>One call of a public method: what it returns and the state it leaves.\<close>

fun step :: "call \<Rightarrow> Warehouse \<Rightarrow> error + (ret \<times> Warehouse)" where
  "step (Add p) w = map_sum (\<lambda>e. e) (\<lambda>(b, w'). (RBool b, w')) (AddProduct p w)"
| "step (FindById x) w = Inr (RPtr (FindProductById x w), w)"
| "step (FindByProducer p) w =
     (case FindProductsByProducer p [] w of (n, out) \<Rightarrow> Inr (RFound n out, w))"
| "step (Remove x) w = map_sum (\<lambda>e. e) (\<lambda>(n, w'). (RCount n, w')) (RemoveProductById x w)"

text \<open>
  A sequence of calls, from a given state: the values returned, in order, and the last
  state. The first failure ends the run.
\<close>

fun run :: "call list \<Rightarrow> Warehouse \<Rightarrow> error + (ret list \<times> Warehouse)" where
  "run [] w = Inr ([], w)"
| "run (c # cs) w =
     (case step c w of
        Inl e \<Rightarrow> Inl e
      | Inr (r, w') \<Rightarrow>
          (case run cs w' of Inl e \<Rightarrow> Inl e | Inr (rs, w'') \<Rightarrow> Inr (r # rs, w'')))"

section \<open>Notions used to state the properties\<close>

text \<open>The items present in the catalog: the handles held by the primary index.\<close>

definition present :: "Warehouse \<Rightarrow> ProductPtr set" where
  "present w = {h. \<exists>x e. mProductsWithMetasById w x = Some e \<and> pProduct e = h}"

text \<open>
  The structural invariant of the two indexes: the secondary index is in key order and
  its nodes have distinct identities; every primary entry sits under the id of its own
  product and its stored iterator points to a node of the secondary index that carries
  the same handle under the product's producer; every node of the secondary index is the
  one pointed to by the primary entry of its product.
\<close>

definition consistent :: "Warehouse \<Rightarrow> bool" where
  "consistent w \<longleftrightarrow>
     sorted (map first (mProductsByProducer w)) \<and>
     distinct (map node (mProductsByProducer w)) \<and>
     (\<forall>x e. mProductsWithMetasById w x = Some e \<longrightarrow>
        pProduct e \<noteq> Null \<and> id_of (pProduct e) = x \<and>
        (\<exists>nd \<in> set (mProductsByProducer w).
           it_productsByProducer (meta e) = Iter (node nd) \<and>
           first nd = producer_of (pProduct e) \<and> second nd = pProduct e)) \<and>
     (\<forall>nd \<in> set (mProductsByProducer w).
        \<exists>e. mProductsWithMetasById w (id_of (second nd)) = Some e \<and>
            it_productsByProducer (meta e) = Iter (node nd))"

text \<open>
  A call with its returned value affects the id \<open>x\<close> when it changed whether an item
  with that id is present: an add of a product with id \<open>x\<close> that returned true, or a
  removal of \<open>x\<close> that returned 1.
\<close>

fun affects :: "string \<Rightarrow> call \<times> ret \<Rightarrow> bool" where
  "affects x (Add p, r) = (p \<noteq> Null \<and> id_of p = x \<and> r = RBool True)"
| "affects x (Remove y, r) = (y = x \<and> r = RCount 1)"
| "affects x (FindById y, r) = False"
| "affects x (FindByProducer q, r) = False"

text \<open>The most recent call of a history that affected the id \<open>x\<close>, if there is one.\<close>

definition most_recent_affecting :: "string \<Rightarrow> call list \<Rightarrow> ret list \<Rightarrow> (call \<times> ret) option" where
  "most_recent_affecting x cs rs = find (affects x) (rev (zip cs rs))"

text \<open>The handle that the history says is present under the id \<open>x\<close>.\<close>

fun added_handle :: "(call \<times> ret) option \<Rightarrow> ProductPtr" where
  "added_handle (Some (Add p, r)) = p"
| "added_handle _ = Null"

text \<open>The products of the removal test of \<^verbatim>\<open>Warehouse_test.cpp\<close>, at three addresses.\<close>

definition producerA_product1 :: ProductPtr where
  "producerA_product1 = Ptr 1 \<lparr>id' = ''id1'', producer = ''producerA'', name = ''1'', price = 1\<rparr>"

definition producerA_product2 :: ProductPtr where
  "producerA_product2 = Ptr 2 \<lparr>id' = ''id2'', producer = ''producerA'', name = ''2'', price = 1\<rparr>"

definition producerA_product3 :: ProductPtr where
  "producerA_product3 = Ptr 3 \<lparr>id' = ''id3'', producer = ''producerA'', name = ''3'', price = 1\<rparr>"

text \<open>
  The removal test up to its first removal: the three adds, then
  \<^verbatim>\<open>RemoveProductById("id1")\<close>, and the state the warehouse is in afterwards.
\<close>

definition removal_test_calls :: "call list" where
  "removal_test_calls =
     [Add producerA_product1, Add producerA_product2, Add producerA_product3, Remove ''id1'']"

definition removal_test_state :: Warehouse where
  "removal_test_state =
     \<lparr>mProductsByProducer =
        [\<lparr>node = 2, first = ''producerA'', second = producerA_product2\<rparr>,
         \<lparr>node = 3, first = ''producerA'', second = producerA_product3\<rparr>],
      mProductsWithMetasById =
        [''id2'' \<mapsto> \<lparr>pProduct = producerA_product2, meta = \<lparr>it_productsByProducer = Iter 2\<rparr>\<rparr>,
         ''id3'' \<mapsto> \<lparr>pProduct = producerA_product3, meta = \<lparr>it_productsByProducer = Iter 3\<rparr>\<rparr>]\<rparr>"

text \<open>
  The bijective cross-reference between the two indexes. The secondary index lists no
  node twice. Every primary entry has exactly one node of the secondary index that holds
  its handle, that node is under the product's own producer and is the one the entry's
  iterator points to, the handle is returned once by the lookup of its own producer and
  never by the lookup of another producer, and it is found under its own id only. Every
  node of the secondary index has exactly one primary entry that refers to it.
\<close>

definition cross_referenced :: "Warehouse \<Rightarrow> bool" where
  "cross_referenced w \<longleftrightarrow>
     distinct (mProductsByProducer w) \<and>
     (\<forall>x e. mProductsWithMetasById w x = Some e \<longrightarrow>
        (\<exists>!nd. nd \<in> set (mProductsByProducer w) \<and> second nd = pProduct e) \<and>
        (\<exists>nd \<in> set (mProductsByProducer w).
           second nd = pProduct e \<and> first nd = producer_of (pProduct e) \<and>
           it_productsByProducer (meta e) = Iter (node nd)) \<and>
        (\<forall>q. count_list (snd (FindProductsByProducer q [] w)) (pProduct e) =
           (if q = producer_of (pProduct e) then 1 else 0)) \<and>
        (\<forall>y. FindProductById y w = pProduct e \<longleftrightarrow> y = x)) \<and>
     (\<forall>nd \<in> set (mProductsByProducer w).
        \<exists>!x. \<exists>e. mProductsWithMetasById w x = Some e \<and> pProduct e = second nd \<and>
           it_productsByProducer (meta e) = Iter (node nd))"

text \<open>
  The state of the removal test after \<^verbatim>\<open>RemoveProductById("id2")\<close> as well, and the
  state reached when instead the first product is added again after its removal.
\<close>

definition second_removal_state :: Warehouse where
  "second_removal_state =
     \<lparr>mProductsByProducer =
        [\<lparr>node = 3, first = ''producerA'', second = producerA_product3\<rparr>],
      mProductsWithMetasById =
        [''id3'' \<mapsto> \<lparr>pProduct = producerA_product3, meta = \<lparr>it_productsByProducer = Iter 3\<rparr>\<rparr>]\<rparr>"

definition readded_state :: Warehouse where
  "readded_state =
     \<lparr>mProductsByProducer =
        [\<lparr>node = 2, first = ''producerA'', second = producerA_product2\<rparr>,
         \<lparr>node = 3, first = ''producerA'', second = producerA_product3\<rparr>,
         \<lparr>node = 4, first = ''producerA'', second = producerA_product1\<rparr>],
      mProductsWithMetasById =
        [''id2'' \<mapsto> \<lparr>pProduct = producerA_product2, meta = \<lparr>it_productsByProducer = Iter 2\<rparr>\<rparr>,
         ''id3'' \<mapsto> \<lparr>pProduct = producerA_product3, meta = \<lparr>it_productsByProducer = Iter 3\<rparr>\<rparr>,
         ''id1'' \<mapsto> \<lparr>pProduct = producerA_product1, meta = \<lparr>it_productsByProducer = Iter 4\<rparr>\<rparr>]\<rparr>"

section \<open>The secondary index as a sorted list of nodes\<close>


lemma copy_range_eq: "copy_range r out c = (c + length r, out @ map second r)"
  by (induction r arbitrary: out c) auto

lemma set_multimap_insert: "set (multimap_insert n m) = insert n (set m)"
  by (induction m) auto

lemma sorted_multimap_insert:
  "sorted (map first m) \<Longrightarrow> sorted (map first (multimap_insert n m))"
  by (induction m) (auto simp: set_multimap_insert)

lemma distinct_multimap_insert:
  "node n \<notin> node ` set m \<Longrightarrow> distinct (map node m) \<Longrightarrow> distinct (map node (multimap_insert n m))"
  by (induction m) (auto simp: set_multimap_insert)

lemma fresh_node_gt: "e \<in> set m \<Longrightarrow> node e < fresh_node m"
  unfolding fresh_node_def by (induction m) auto

lemma fresh_node_notin: "fresh_node m \<notin> node ` set m"
  using fresh_node_gt by fastforce

lemma takeWhile_upper:
  "sorted (map first m) \<Longrightarrow> \<forall>e\<in>set m. k \<le> first e \<Longrightarrow>
   takeWhile (\<lambda>e. \<not> k < first e) m = filter (\<lambda>e. first e = k) m"
proof (induction m)
  case Nil
  then show ?case by simp
next
  case (Cons e es)
  show ?case
  proof (cases "k < first e")
    case True
    with Cons.prems have "\<forall>x\<in>set es. k < first x" by auto
    then have "filter (\<lambda>e. first e = k) es = []" by (auto simp: filter_empty_conv)
    with True show ?thesis by auto
  next
    case False
    with Cons.prems have "first e = k" by auto
    with Cons show ?thesis by auto
  qed
qed

lemma equal_range_filter:
  "sorted (map first m) \<Longrightarrow> multimap_equal_range k m = filter (\<lambda>e. first e = k) m"
proof (induction m)
  case Nil
  then show ?case by (simp add: multimap_equal_range_def)
next
  case (Cons e es)
  show ?case
  proof (cases "first e < k")
    case True
    with Cons show ?thesis by (auto simp: multimap_equal_range_def)
  next
    case False
    with Cons.prems have "\<forall>x\<in>set (e # es). k \<le> first x" by auto
    with False Cons.prems show ?thesis
      unfolding multimap_equal_range_def
      using takeWhile_upper [of "e # es" k] by simp
  qed
qed

lemma filter_multimap_insert:
  "sorted (map first m) \<Longrightarrow>
   filter (\<lambda>e. first e = k) (multimap_insert n m) =
     (if first n = k then filter (\<lambda>e. first e = k) m @ [n] else filter (\<lambda>e. first e = k) m)"
proof (induction m)
  case Nil
  then show ?case by simp
next
  case (Cons e es)
  show ?case
  proof (cases "first n < first e")
    case True
    with Cons.prems have "\<forall>x\<in>set (e # es). first n < first x" by auto
    then have "first n = k \<Longrightarrow> filter (\<lambda>e. first e = k) (e # es) = []"
      by (auto simp: filter_empty_conv)
    with True show ?thesis by auto
  next
    case False
    with Cons show ?thesis by auto
  qed
qed

section \<open>The invariant holds in every state the methods produce\<close>

lemma consistent_empty: "consistent empty_warehouse"
  by (simp add: consistent_def empty_warehouse_def)

lemma AddProduct_Null: "AddProduct Null w = Inl AssertionFailed"
  by (simp add: AddProduct_def)

lemma AddProduct_dup:
  "mProductsWithMetasById w (id' pr) = Some e \<Longrightarrow> AddProduct (Ptr a pr) w = Inr (False, w)"
  by (simp add: AddProduct_def unordered_map_emplace_def)

lemma AddProduct_new:
  "mProductsWithMetasById w (id' pr) = None \<Longrightarrow>
   AddProduct (Ptr a pr) w =
     Inr (True,
       \<lparr>mProductsByProducer =
          multimap_insert \<lparr>node = fresh_node (mProductsByProducer w), first = producer pr,
                           second = Ptr a pr\<rparr> (mProductsByProducer w),
        mProductsWithMetasById =
          (mProductsWithMetasById w)(id' pr \<mapsto>
             \<lparr>pProduct = Ptr a pr,
              meta = \<lparr>it_productsByProducer = Iter (fresh_node (mProductsByProducer w))\<rparr>\<rparr>)\<rparr>)"
  by (simp add: AddProduct_def unordered_map_emplace_def multimap_emplace_def Let_def
      ProductWithMeta_ctor_def)

lemma RemoveProductById_absent:
  "mProductsWithMetasById w x = None \<Longrightarrow> RemoveProductById x w = Inr (0, w)"
  by (simp add: RemoveProductById_def)

lemma consistent_iter:
  assumes "consistent w" "mProductsWithMetasById w x = Some e"
  obtains n where "it_productsByProducer (meta e) = Iter n" "n \<in> node ` set (mProductsByProducer w)"
  using assms unfolding consistent_def by blast

lemma RemoveProductById_present:
  assumes "consistent w" "mProductsWithMetasById w x = Some e"
  shows "\<exists>n. it_productsByProducer (meta e) = Iter n \<and> n \<in> node ` set (mProductsByProducer w) \<and>
     RemoveProductById x w =
       Inr (1, \<lparr>mProductsByProducer = filter (\<lambda>nd. node nd \<noteq> n) (mProductsByProducer w),
                mProductsWithMetasById = (mProductsWithMetasById w)(x := None)\<rparr>)"
proof -
  from assms obtain n where n: "it_productsByProducer (meta e) = Iter n"
    "n \<in> node ` set (mProductsByProducer w)"
    by (rule consistent_iter)
  then show ?thesis
    using assms(2) by (simp add: RemoveProductById_def multimap_erase_def)
qed

lemma consistent_AddProduct:
  assumes "consistent w" "AddProduct p w = Inr (b, w')"
  shows "consistent w'"
proof (cases p)
  case Null
  with assms show ?thesis by (simp add: AddProduct_Null)
next
  case (Ptr a pr)
  show ?thesis
  proof (cases "mProductsWithMetasById w (id' pr)")
    case (Some e)
    with assms Ptr show ?thesis by (simp add: AddProduct_dup)
  next
    case None
    let ?n = "fresh_node (mProductsByProducer w)"
    let ?nd = "\<lparr>node = ?n, first = producer pr, second = Ptr a pr\<rparr>"
    from None assms(2) Ptr have w': "w' = \<lparr>mProductsByProducer = multimap_insert ?nd (mProductsByProducer w),
        mProductsWithMetasById = (mProductsWithMetasById w)(id' pr \<mapsto>
             \<lparr>pProduct = Ptr a pr, meta = \<lparr>it_productsByProducer = Iter ?n\<rparr>\<rparr>)\<rparr>"
      by (simp add: AddProduct_new)
    have fresh: "\<And>nd. nd \<in> set (mProductsByProducer w) \<Longrightarrow> node nd \<noteq> ?n"
      using fresh_node_gt by fastforce
    have 1: "sorted (map first (mProductsByProducer w'))"
      using assms(1) by (simp add: w' consistent_def sorted_multimap_insert)
    have 2: "distinct (map node (mProductsByProducer w'))"
      using assms(1) fresh_node_notin [of "mProductsByProducer w"]
      by (simp add: w' consistent_def distinct_multimap_insert)
    have 3: "pProduct e \<noteq> Null \<and> id_of (pProduct e) = x \<and>
        (\<exists>nd \<in> set (mProductsByProducer w').
           it_productsByProducer (meta e) = Iter (node nd) \<and>
           first nd = producer_of (pProduct e) \<and> second nd = pProduct e)"
      if "mProductsWithMetasById w' x = Some e" for x e
    proof (cases "x = id' pr")
      case True
      with that show ?thesis by (auto simp: w' set_multimap_insert)
    next
      case False
      with that have "mProductsWithMetasById w x = Some e" by (simp add: w')
      with assms(1) show ?thesis
        unfolding consistent_def by (simp add: w' set_multimap_insert)
    qed
    have 4: "\<exists>e. mProductsWithMetasById w' (id_of (second nd)) = Some e \<and>
            it_productsByProducer (meta e) = Iter (node nd)"
      if "nd \<in> set (mProductsByProducer w')" for nd
    proof (cases "nd = ?nd")
      case True
      then show ?thesis by (simp add: w')
    next
      case False
      with that have in_old: "nd \<in> set (mProductsByProducer w)"
        by (simp add: w' set_multimap_insert)
      with assms(1) obtain e where e: "mProductsWithMetasById w (id_of (second nd)) = Some e"
        "it_productsByProducer (meta e) = Iter (node nd)"
        unfolding consistent_def by blast
      with None have "id_of (second nd) \<noteq> id' pr" by auto
      with e show ?thesis by (simp add: w')
    qed
    from 1 2 3 4 show ?thesis unfolding consistent_def by blast
  qed
qed


lemma node_unique:
  "distinct (map node m) \<Longrightarrow> a \<in> set m \<Longrightarrow> b \<in> set m \<Longrightarrow> node a = node b \<Longrightarrow> a = b"
  by (auto simp: distinct_map dest: inj_onD)

lemma consistent_entry:
  assumes "consistent w" "mProductsWithMetasById w x = Some e"
  obtains nd where "nd \<in> set (mProductsByProducer w)"
    "it_productsByProducer (meta e) = Iter (node nd)"
    "first nd = producer_of (pProduct e)" "second nd = pProduct e"
    "pProduct e \<noteq> Null" "id_of (pProduct e) = x"
  using assms unfolding consistent_def by blast

lemma consistent_node:
  assumes "consistent w" "nd \<in> set (mProductsByProducer w)"
  obtains e where "mProductsWithMetasById w (id_of (second nd)) = Some e"
    "pProduct e = second nd" "it_productsByProducer (meta e) = Iter (node nd)"
    "first nd = producer_of (second nd)" "second nd \<noteq> Null"
proof -
  from assms obtain e where e: "mProductsWithMetasById w (id_of (second nd)) = Some e"
    "it_productsByProducer (meta e) = Iter (node nd)"
    unfolding consistent_def by blast
  from assms(1) e(1) obtain nd' where nd': "nd' \<in> set (mProductsByProducer w)"
    "it_productsByProducer (meta e) = Iter (node nd')"
    "first nd' = producer_of (pProduct e)" "second nd' = pProduct e" "pProduct e \<noteq> Null"
    by (rule consistent_entry)
  from assms(1) have "distinct (map node (mProductsByProducer w))"
    by (simp add: consistent_def)
  with nd'(1,2) e(2) assms(2) have "nd' = nd"
    by (auto intro: node_unique)
  with e nd' that show thesis by auto
qed

lemma consistent_RemoveProductById:
  assumes "consistent w" "RemoveProductById x w = Inr (k, w')"
  shows "consistent w'"
proof (cases "mProductsWithMetasById w x")
  case None
  with assms show ?thesis by (simp add: RemoveProductById_absent)
next
  case (Some e)
  with assms(1) obtain n where n: "it_productsByProducer (meta e) = Iter n"
    and w': "RemoveProductById x w =
       Inr (1, \<lparr>mProductsByProducer = filter (\<lambda>nd. node nd \<noteq> n) (mProductsByProducer w),
                mProductsWithMetasById = (mProductsWithMetasById w)(x := None)\<rparr>)"
    using RemoveProductById_present by blast
  from w' assms(2) have w': "w' = \<lparr>mProductsByProducer = filter (\<lambda>nd. node nd \<noteq> n) (mProductsByProducer w),
                mProductsWithMetasById = (mProductsWithMetasById w)(x := None)\<rparr>"
    by simp
  from assms(1) have d: "distinct (map node (mProductsByProducer w))"
    by (simp add: consistent_def)
  have 1: "sorted (map first (mProductsByProducer w'))"
    using assms(1) by (simp add: w' consistent_def sorted_filter)
  have 2: "distinct (map node (mProductsByProducer w'))"
    using d by (simp add: w' distinct_map_filter)
  have 3: "pProduct e' \<noteq> Null \<and> id_of (pProduct e') = y \<and>
        (\<exists>nd \<in> set (mProductsByProducer w').
           it_productsByProducer (meta e') = Iter (node nd) \<and>
           first nd = producer_of (pProduct e') \<and> second nd = pProduct e')"
    if "mProductsWithMetasById w' y = Some e'" for y e'
  proof -
    from that have yx: "y \<noteq> x" and old: "mProductsWithMetasById w y = Some e'"
      by (auto simp: w' split: if_splits)
    from assms(1) old obtain nd where nd: "nd \<in> set (mProductsByProducer w)"
      "it_productsByProducer (meta e') = Iter (node nd)"
      "first nd = producer_of (pProduct e')" "second nd = pProduct e'"
      "pProduct e' \<noteq> Null" "id_of (pProduct e') = y"
      by (rule consistent_entry)
    have "node nd \<noteq> n"
    proof
      assume "node nd = n"
      from assms(1) nd(1) obtain e'' where
        "mProductsWithMetasById w (id_of (second nd)) = Some e''"
        "it_productsByProducer (meta e'') = Iter (node nd)"
        by (rule consistent_node)
      with nd(4,6) old have "e'' = e'" by simp
      from assms(1) Some obtain ndx where ndx: "ndx \<in> set (mProductsByProducer w)"
        "it_productsByProducer (meta e) = Iter (node ndx)" "second ndx = pProduct e"
        "id_of (pProduct e) = x"
        by (rule consistent_entry)
      with n \<open>node nd = n\<close> have "node ndx = node nd" by simp
      with d ndx(1) nd(1) have "ndx = nd" by (rule node_unique)
      with ndx nd yx show False by simp
    qed
    with nd show ?thesis by (auto simp: w')
  qed
  have 4: "\<exists>e'. mProductsWithMetasById w' (id_of (second nd)) = Some e' \<and>
            it_productsByProducer (meta e') = Iter (node nd)"
    if "nd \<in> set (mProductsByProducer w')" for nd
  proof -
    from that have nd: "nd \<in> set (mProductsByProducer w)" "node nd \<noteq> n"
      by (auto simp: w')
    from assms(1) nd(1) obtain e' where e': "mProductsWithMetasById w (id_of (second nd)) = Some e'"
      "it_productsByProducer (meta e') = Iter (node nd)"
      by (rule consistent_node)
    with Some n nd(2) have "id_of (second nd) \<noteq> x" by auto
    with e' show ?thesis by (simp add: w')
  qed
  from 1 2 3 4 show ?thesis unfolding consistent_def by blast
qed

lemma consistent_step:
  "consistent w \<Longrightarrow> step c w = Inr (r, w') \<Longrightarrow> consistent w'"
  by (cases c) (auto simp: map_sum_def split: sum.splits prod.splits
      dest: consistent_AddProduct consistent_RemoveProductById)

lemma consistent_run:
  "consistent w \<Longrightarrow> run cs w = Inr (rs, w') \<Longrightarrow> consistent w'"
proof (induction cs arbitrary: w rs)
  case Nil
  then show ?case by simp
next
  case (Cons c cs)
  then show ?case
    by (auto split: sum.splits prod.splits dest: consistent_step)
qed

lemma reachable_consistent:
  "run cs empty_warehouse = Inr (rs, w) \<Longrightarrow> consistent w"
  using consistent_run consistent_empty by blast

lemma FindProductsByProducer_filter:
  "consistent w \<Longrightarrow>
   FindProductsByProducer q out w =
     (length (filter (\<lambda>nd. first nd = q) (mProductsByProducer w)),
      out @ map second (filter (\<lambda>nd. first nd = q) (mProductsByProducer w)))"
  by (simp add: FindProductsByProducer_def consistent_def equal_range_filter copy_range_eq)

lemma consistent_second_inj:
  assumes "consistent w"
  shows "inj_on second (set (mProductsByProducer w))"
proof (rule inj_onI)
  fix a b
  assume a: "a \<in> set (mProductsByProducer w)" and b: "b \<in> set (mProductsByProducer w)"
    and eq: "second a = second b"
  from assms a obtain ea where ea: "mProductsWithMetasById w (id_of (second a)) = Some ea"
    "it_productsByProducer (meta ea) = Iter (node a)"
    by (rule consistent_node)
  from assms b obtain eb where eb: "mProductsWithMetasById w (id_of (second b)) = Some eb"
    "it_productsByProducer (meta eb) = Iter (node b)"
    by (rule consistent_node)
  from ea eb eq have "node a = node b" by simp
  moreover from assms have "distinct (map node (mProductsByProducer w))"
    by (simp add: consistent_def)
  ultimately show "a = b" using a b by (auto intro: node_unique)
qed

lemma consistent_distinct_second:
  assumes "consistent w"
  shows "distinct (map second (mProductsByProducer w))"
proof -
  from assms have "distinct (map node (mProductsByProducer w))"
    by (simp add: consistent_def)
  then have "distinct (mProductsByProducer w)" by (simp add: distinct_map)
  with consistent_second_inj [OF assms] show ?thesis by (simp add: distinct_map)
qed

lemma consistent_present:
  assumes "consistent w"
  shows "second ` set (mProductsByProducer w) = present w"
proof (rule set_eqI, rule iffI)
  fix h assume "h \<in> second ` set (mProductsByProducer w)"
  then obtain nd where nd: "nd \<in> set (mProductsByProducer w)" "h = second nd" by auto
  from assms nd(1) obtain e where "mProductsWithMetasById w (id_of (second nd)) = Some e"
    "pProduct e = second nd"
    by (rule consistent_node)
  with nd(2) show "h \<in> present w" by (auto simp: present_def)
next
  fix h assume "h \<in> present w"
  then obtain x e where e: "mProductsWithMetasById w x = Some e" "h = pProduct e"
    by (auto simp: present_def)
  from assms e(1) obtain nd where "nd \<in> set (mProductsByProducer w)" "second nd = pProduct e"
    by (rule consistent_entry)
  with e(2) show "h \<in> second ` set (mProductsByProducer w)" by force
qed

lemma consistent_group:
  assumes "consistent w"
  shows "set (map second (filter (\<lambda>nd. first nd = q) (mProductsByProducer w))) =
         {h \<in> present w. producer_of h = q}"
proof -
  have "first nd = producer_of (second nd)" if "nd \<in> set (mProductsByProducer w)" for nd
    using assms that by (rule consistent_node)
  then have "set (map second (filter (\<lambda>nd. first nd = q) (mProductsByProducer w))) =
      {h \<in> second ` set (mProductsByProducer w). producer_of h = q}"
    by auto
  with consistent_present [OF assms] show ?thesis by simp
qed

lemma consistent_group_distinct:
  "consistent w \<Longrightarrow> distinct (map second (filter (\<lambda>nd. first nd = q) (mProductsByProducer w)))"
  by (metis consistent_distinct_second distinct_map_filter)

section \<open>The removal test, evaluated\<close>

lemma run_removal_test:
  "run removal_test_calls empty_warehouse =
     Inr ([RBool True, RBool True, RBool True, RCount 1], removal_test_state)"
  by (simp add: removal_test_calls_def removal_test_state_def empty_warehouse_def
      producerA_product1_def producerA_product2_def producerA_product3_def
      AddProduct_def unordered_map_emplace_def ProductWithMeta_ctor_def multimap_emplace_def
      fresh_node_def RemoveProductById_def multimap_erase_def numeral_2_eq_2 numeral_3_eq_3)

section \<open>Lookup by producer\<close>

text \<open>
  C1. In every state reached from the empty warehouse by a sequence of calls (whether or
  not the ids of the added products are distinct), \<^verbatim>\<open>FindProductsByProducer(p, out)\<close>
  appends to the output a list without repetitions whose elements are exactly the present
  items with producer \<open>p\<close>, and returns the length of that list; with no such item it
  returns 0 and leaves the output as it was.
\<close>

theorem FindProductsByProducer_exact:
  assumes "run cs empty_warehouse = Inr (rs, w)"
  shows "\<exists>found.
     FindProductsByProducer p out w = (length found, out @ found) \<and>
     distinct found \<and>
     set found = {h \<in> present w. producer_of h = p} \<and>
     ({h \<in> present w. producer_of h = p} = {} \<longrightarrow> FindProductsByProducer p out w = (0, out))"
proof -
  from assms have c: "consistent w" by (rule reachable_consistent)
  let ?found = "map second (filter (\<lambda>nd. first nd = p) (mProductsByProducer w))"
  have 1: "FindProductsByProducer p out w = (length ?found, out @ ?found)"
    using c by (simp add: FindProductsByProducer_filter)
  have 2: "distinct ?found" using c by (rule consistent_group_distinct)
  have 3: "set ?found = {h \<in> present w. producer_of h = p}" using c by (rule consistent_group)
  have 4: "FindProductsByProducer p out w = (0, out)" if "{h \<in> present w. producer_of h = p} = {}"
  proof -
    from that 3 have "set ?found = {}" by (simp only:)
    then have "?found = []" by (simp only: set_empty)
    with 1 show ?thesis by simp
  qed
  from 1 2 3 4 show ?thesis by blast
qed

theorem FindProductsByProducer_exact_witness:
  "run removal_test_calls empty_warehouse =
     Inr ([RBool True, RBool True, RBool True, RCount 1], removal_test_state) \<and>
   (\<exists>found.
     FindProductsByProducer ''producerA'' [] removal_test_state = (length found, [] @ found) \<and>
     distinct found \<and>
     set found = {h \<in> present removal_test_state. producer_of h = ''producerA''} \<and>
     ({h \<in> present removal_test_state. producer_of h = ''producerA''} = {} \<longrightarrow>
        FindProductsByProducer ''producerA'' [] removal_test_state = (0, []))) \<and>
   FindProductsByProducer ''producerA'' [] removal_test_state =
     (2, [producerA_product2, producerA_product3])"
proof -
  have h: "run removal_test_calls empty_warehouse =
     Inr ([RBool True, RBool True, RBool True, RCount 1], removal_test_state)"
    by (rule run_removal_test)
  have v: "FindProductsByProducer ''producerA'' [] removal_test_state =
     (2, [producerA_product2, producerA_product3])"
    by (simp add: FindProductsByProducer_def multimap_equal_range_def removal_test_state_def)
  from h v FindProductsByProducer_exact [OF h, of "''producerA''" "[]"] show ?thesis
    by blast
qed

section \<open>Cross-index consistency\<close>

lemma count_list_distinct:
  "distinct xs \<Longrightarrow> count_list xs x = (if x \<in> set xs then 1 else 0)"
  by (induction xs) auto

lemma FindProductById_eq_iff:
  assumes "consistent w" "mProductsWithMetasById w x = Some e"
  shows "FindProductById y w = pProduct e \<longleftrightarrow> y = x"
proof
  assume eq: "FindProductById y w = pProduct e"
  from assms obtain nd where e: "pProduct e \<noteq> Null" "id_of (pProduct e) = x"
    by (rule consistent_entry)
  with eq obtain e' where e': "mProductsWithMetasById w y = Some e'" "pProduct e' = pProduct e"
    by (auto simp: FindProductById_def split: option.splits)
  from assms(1) e'(1) obtain nd' where "id_of (pProduct e') = y"
    by (rule consistent_entry)
  with e'(2) e(2) show "y = x" by simp
next
  assume "y = x"
  with assms(2) show "FindProductById y w = pProduct e" by (simp add: FindProductById_def)
qed

text \<open>
  C2. Every state reached from the empty warehouse by a sequence of calls of the public
  methods is cross-referenced: each present item has exactly one entry of the secondary
  index, under its own producer, and each entry of the secondary index belongs to exactly
  one present item; so each present item is in exactly one producer group and in exactly
  one id slot after every call.
\<close>

theorem cross_index_consistency:
  assumes "run cs empty_warehouse = Inr (rs, w)"
  shows "cross_referenced w"
proof -
  from assms have c: "consistent w" by (rule reachable_consistent)
  let ?mm = "mProductsByProducer w"
  from c have "distinct (map node ?mm)" by (simp add: consistent_def)
  then have 1: "distinct ?mm" by (simp add: distinct_map)
  have 2: "\<exists>!nd. nd \<in> set ?mm \<and> second nd = pProduct e"
    and 3: "\<exists>nd \<in> set ?mm. second nd = pProduct e \<and> first nd = producer_of (pProduct e) \<and>
           it_productsByProducer (meta e) = Iter (node nd)"
    and 4: "count_list (snd (FindProductsByProducer q [] w)) (pProduct e) =
           (if q = producer_of (pProduct e) then 1 else 0)"
    and 5: "FindProductById y w = pProduct e \<longleftrightarrow> y = x"
    if e: "mProductsWithMetasById w x = Some e" for x e q y
  proof -
    from c e obtain nd where nd: "nd \<in> set ?mm"
      "it_productsByProducer (meta e) = Iter (node nd)"
      "first nd = producer_of (pProduct e)" "second nd = pProduct e"
      by (rule consistent_entry)
    then show 3: "\<exists>nd \<in> set ?mm. second nd = pProduct e \<and> first nd = producer_of (pProduct e) \<and>
           it_productsByProducer (meta e) = Iter (node nd)"
      by blast
    show "\<exists>!nd. nd \<in> set ?mm \<and> second nd = pProduct e"
    proof (rule ex1I [of _ nd])
      show "nd \<in> set ?mm \<and> second nd = pProduct e" using nd by simp
    next
      fix nd' assume "nd' \<in> set ?mm \<and> second nd' = pProduct e"
      then have "nd' \<in> set ?mm" "second nd' = second nd" using nd(4) by simp_all
      with nd(1) show "nd' = nd"
        using inj_onD [OF consistent_second_inj [OF c], of nd' nd] by simp
    qed
    from e have pres: "pProduct e \<in> present w" by (auto simp: present_def)
    show "count_list (snd (FindProductsByProducer q [] w)) (pProduct e) =
           (if q = producer_of (pProduct e) then 1 else 0)"
    proof -
      let ?g = "map second (filter (\<lambda>nd. first nd = q) ?mm)"
      have "snd (FindProductsByProducer q [] w) = ?g"
        using c by (simp add: FindProductsByProducer_filter)
      moreover have "distinct ?g" using c by (rule consistent_group_distinct)
      moreover have "set ?g = {h \<in> present w. producer_of h = q}" using c by (rule consistent_group)
      ultimately show ?thesis
        using pres by (simp add: count_list_distinct)
    qed
    show "FindProductById y w = pProduct e \<longleftrightarrow> y = x"
      using c e by (rule FindProductById_eq_iff)
  qed
  have 6: "\<exists>!x. \<exists>e. mProductsWithMetasById w x = Some e \<and> pProduct e = second nd \<and>
           it_productsByProducer (meta e) = Iter (node nd)"
    if "nd \<in> set ?mm" for nd
  proof -
    from c that obtain e where e: "mProductsWithMetasById w (id_of (second nd)) = Some e"
      "pProduct e = second nd" "it_productsByProducer (meta e) = Iter (node nd)"
      by (rule consistent_node)
    show ?thesis
    proof (rule ex1I [of _ "id_of (second nd)"])
      show "\<exists>e. mProductsWithMetasById w (id_of (second nd)) = Some e \<and> pProduct e = second nd \<and>
           it_productsByProducer (meta e) = Iter (node nd)"
        using e by blast
    next
      fix x assume "\<exists>e. mProductsWithMetasById w x = Some e \<and> pProduct e = second nd \<and>
           it_productsByProducer (meta e) = Iter (node nd)"
      then obtain e' where e': "mProductsWithMetasById w x = Some e'" "pProduct e' = second nd"
        by blast
      from c e'(1) obtain nd' where "id_of (pProduct e') = x" by (rule consistent_entry)
      with e'(2) show "x = id_of (second nd)" by simp
    qed
  qed
  show ?thesis
    unfolding cross_referenced_def
  proof (intro conjI allI impI ballI)
    show "distinct ?mm" by (rule 1)
  next
    fix x e assume "mProductsWithMetasById w x = Some e"
    then show "\<exists>!nd. nd \<in> set ?mm \<and> second nd = pProduct e" by (rule 2)
  next
    fix x e assume "mProductsWithMetasById w x = Some e"
    then show "\<exists>nd \<in> set ?mm. second nd = pProduct e \<and> first nd = producer_of (pProduct e) \<and>
           it_productsByProducer (meta e) = Iter (node nd)" by (rule 3)
  next
    fix x e q assume "mProductsWithMetasById w x = Some e"
    then show "count_list (snd (FindProductsByProducer q [] w)) (pProduct e) =
           (if q = producer_of (pProduct e) then 1 else 0)" by (rule 4)
  next
    fix x e y assume "mProductsWithMetasById w x = Some e"
    then show "FindProductById y w = pProduct e \<longleftrightarrow> y = x" by (rule 5)
  next
    fix nd assume "nd \<in> set ?mm"
    then show "\<exists>!x. \<exists>e. mProductsWithMetasById w x = Some e \<and> pProduct e = second nd \<and>
           it_productsByProducer (meta e) = Iter (node nd)" by (rule 6)
  qed
qed

theorem cross_index_consistency_witness:
  "run removal_test_calls empty_warehouse =
     Inr ([RBool True, RBool True, RBool True, RCount 1], removal_test_state) \<and>
   cross_referenced removal_test_state"
proof -
  have h: "run removal_test_calls empty_warehouse =
     Inr ([RBool True, RBool True, RBool True, RCount 1], removal_test_state)"
    by (rule run_removal_test)
  from h cross_index_consistency [OF h] show ?thesis by (rule conjI)
qed

section \<open>What the two mutating methods do to a consistent state\<close>

lemma FindProductById_Null_iff:
  assumes "consistent w"
  shows "FindProductById x w = Null \<longleftrightarrow> mProductsWithMetasById w x = None"
proof (cases "mProductsWithMetasById w x")
  case None
  then show ?thesis by (simp add: FindProductById_def)
next
  case (Some e)
  with assms obtain nd where "pProduct e \<noteq> Null" by (rule consistent_entry)
  with Some show ?thesis by (simp add: FindProductById_def)
qed

lemma erase_by_handle:
  assumes "consistent w" "mProductsWithMetasById w x = Some e"
    "it_productsByProducer (meta e) = Iter n"
  shows "filter (\<lambda>nd. node nd \<noteq> n) (mProductsByProducer w) =
         filter (\<lambda>nd. second nd \<noteq> pProduct e) (mProductsByProducer w)"
proof (rule filter_cong [OF refl])
  fix nd assume nd: "nd \<in> set (mProductsByProducer w)"
  from assms(1,2) obtain ndx where ndx: "ndx \<in> set (mProductsByProducer w)"
    "it_productsByProducer (meta e) = Iter (node ndx)" "second ndx = pProduct e"
    by (rule consistent_entry)
  from assms(1) have d: "distinct (map node (mProductsByProducer w))"
    by (simp add: consistent_def)
  have "nd = ndx" if "node nd = n"
    using d nd ndx(1) that ndx(2) assms(3) by (auto intro: node_unique)
  moreover have "nd = ndx" if "second nd = pProduct e"
    using inj_onD [OF consistent_second_inj [OF assms(1)], of nd ndx] nd ndx that by simp
  ultimately show "(node nd \<noteq> n) = (second nd \<noteq> pProduct e)"
    using ndx assms(3) by auto
qed

lemma RemoveProductById_result:
  assumes "consistent w" "mProductsWithMetasById w x = Some e"
  shows "\<exists>w'. RemoveProductById x w = Inr (1, w') \<and> consistent w' \<and>
     mProductsWithMetasById w' = (mProductsWithMetasById w)(x := None) \<and>
     mProductsByProducer w' = filter (\<lambda>nd. second nd \<noteq> pProduct e) (mProductsByProducer w)"
proof -
  from assms obtain n where n: "it_productsByProducer (meta e) = Iter n"
    and r: "RemoveProductById x w =
       Inr (1, \<lparr>mProductsByProducer = filter (\<lambda>nd. node nd \<noteq> n) (mProductsByProducer w),
                mProductsWithMetasById = (mProductsWithMetasById w)(x := None)\<rparr>)"
    using RemoveProductById_present by blast
  from assms(1) r have "consistent \<lparr>mProductsByProducer = filter (\<lambda>nd. node nd \<noteq> n) (mProductsByProducer w),
                mProductsWithMetasById = (mProductsWithMetasById w)(x := None)\<rparr>"
    by (rule consistent_RemoveProductById)
  with r erase_by_handle [OF assms n] show ?thesis by simp
qed

lemma AddProduct_result:
  assumes "consistent w" "mProductsWithMetasById w (id' pr) = None"
  shows "\<exists>w' e nd. AddProduct (Ptr a pr) w = Inr (True, w') \<and> consistent w' \<and>
     pProduct e = Ptr a pr \<and>
     mProductsWithMetasById w' = (mProductsWithMetasById w)(id' pr \<mapsto> e) \<and>
     first nd = producer pr \<and> second nd = Ptr a pr \<and>
     mProductsByProducer w' = multimap_insert nd (mProductsByProducer w)"
proof -
  let ?n = "fresh_node (mProductsByProducer w)"
  let ?w' = "\<lparr>mProductsByProducer =
          multimap_insert \<lparr>node = ?n, first = producer pr, second = Ptr a pr\<rparr> (mProductsByProducer w),
        mProductsWithMetasById =
          (mProductsWithMetasById w)(id' pr \<mapsto>
             \<lparr>pProduct = Ptr a pr, meta = \<lparr>it_productsByProducer = Iter ?n\<rparr>\<rparr>)\<rparr>"
  from assms(2) have r: "AddProduct (Ptr a pr) w = Inr (True, ?w')" by (rule AddProduct_new)
  with assms(1) have "consistent ?w'" by (rule consistent_AddProduct)
  with r show ?thesis
    by (intro exI [of _ ?w']
        exI [of _ "\<lparr>pProduct = Ptr a pr, meta = \<lparr>it_productsByProducer = Iter ?n\<rparr>\<rparr>"]
        exI [of _ "\<lparr>node = ?n, first = producer pr, second = Ptr a pr\<rparr>"]) simp
qed

lemma present_unique_id:
  assumes "consistent w" "h1 \<in> present w" "h2 \<in> present w" "id_of h1 = id_of h2"
  shows "h1 = h2"
proof -
  from assms(2) obtain x1 e1 where e1: "mProductsWithMetasById w x1 = Some e1" "pProduct e1 = h1"
    by (auto simp: present_def)
  from assms(3) obtain x2 e2 where e2: "mProductsWithMetasById w x2 = Some e2" "pProduct e2 = h2"
    by (auto simp: present_def)
  from assms(1) e1(1) obtain nd1 where "id_of (pProduct e1) = x1" by (rule consistent_entry)
  moreover from assms(1) e2(1) obtain nd2 where "id_of (pProduct e2) = x2" by (rule consistent_entry)
  ultimately have "x1 = x2" using e1(2) e2(2) assms(4) by simp
  with e1 e2 show ?thesis by simp
qed

lemma present_insert:
  assumes "mProductsWithMetasById w x = None"
    "mProductsWithMetasById w' = (mProductsWithMetasById w)(x \<mapsto> e)"
  shows "present w' = insert (pProduct e) (present w)"
proof (rule set_eqI, rule iffI)
  fix h assume "h \<in> present w'"
  then obtain y e' where "((mProductsWithMetasById w)(x \<mapsto> e)) y = Some e'" "pProduct e' = h"
    unfolding present_def assms(2) by blast
  then show "h \<in> insert (pProduct e) (present w)"
    by (cases "y = x") (auto simp: present_def)
next
  fix h assume "h \<in> insert (pProduct e) (present w)"
  then consider "h = pProduct e" | "h \<in> present w" by blast
  then show "h \<in> present w'"
  proof cases
    case 1
    have "mProductsWithMetasById w' x = Some e" by (simp add: assms(2))
    with 1 show ?thesis unfolding present_def by blast
  next
    case 2
    then obtain y e' where y: "mProductsWithMetasById w y = Some e'" "pProduct e' = h"
      unfolding present_def by blast
    with assms(1) have "y \<noteq> x" by auto
    with y(1) have "mProductsWithMetasById w' y = Some e'" by (simp add: assms(2))
    with y(2) show ?thesis unfolding present_def by blast
  qed
qed

lemma present_remove:
  assumes "consistent w" "mProductsWithMetasById w x = Some e"
    "mProductsWithMetasById w' = (mProductsWithMetasById w)(x := None)"
  shows "present w' = present w - {pProduct e}"
proof (rule set_eqI, rule iffI)
  fix h assume "h \<in> present w'"
  then obtain y e' where y: "((mProductsWithMetasById w)(x := None)) y = Some e'" "pProduct e' = h"
    unfolding present_def assms(3) by blast
  then have yx: "y \<noteq> x" and old: "mProductsWithMetasById w y = Some e'"
    by (auto split: if_splits)
  from assms(1) old obtain nd where "id_of (pProduct e') = y" by (rule consistent_entry)
  moreover from assms(1,2) obtain nd' where "id_of (pProduct e) = x" by (rule consistent_entry)
  ultimately have "h \<noteq> pProduct e" using yx y(2) by auto
  moreover from old y(2) have "h \<in> present w" unfolding present_def by blast
  ultimately show "h \<in> present w - {pProduct e}" by simp
next
  fix h assume "h \<in> present w - {pProduct e}"
  then obtain y e' where y: "mProductsWithMetasById w y = Some e'" "pProduct e' = h"
    and ne: "h \<noteq> pProduct e"
    unfolding present_def by blast
  with assms(2) have "y \<noteq> x" by auto
  with y(1) have "mProductsWithMetasById w' y = Some e'" by (simp add: assms(3))
  with y(2) show "h \<in> present w'" unfolding present_def by blast
qed

lemma group_member:
  assumes "consistent w"
  shows "h \<in> set (snd (FindProductsByProducer q out w)) \<longleftrightarrow>
         h \<in> set out \<or> h \<in> present w \<and> producer_of h = q"
  using consistent_group [OF assms, of q] by (simp add: FindProductsByProducer_filter [OF assms])

section \<open>Adding\<close>

text \<open>
  C3. In every state reached from the empty warehouse, for a non-null handle \<open>p\<close>: when
  no item with the id of \<open>p\<close> is present, \<^verbatim>\<open>AddProduct(p)\<close> returns true and leaves a
  state in which \<open>p\<close> is found under its id and among the products of its producer, the
  present items being those of before together with \<open>p\<close>; when an item with that id is
  present, it returns false and the state is the one of before, so the item added first
  stays as it was. At most one item with a given id is present.
\<close>

theorem AddProduct_unique_id:
  assumes "run cs empty_warehouse = Inr (rs, w)" and "p \<noteq> Null"
  shows "(FindProductById (id_of p) w = Null \<longrightarrow>
            (\<exists>w'. AddProduct p w = Inr (True, w') \<and>
                  FindProductById (id_of p) w' = p \<and>
                  p \<in> set (snd (FindProductsByProducer (producer_of p) [] w')) \<and>
                  present w' = insert p (present w))) \<and>
         (FindProductById (id_of p) w \<noteq> Null \<longrightarrow> AddProduct p w = Inr (False, w)) \<and>
         (\<forall>h1 \<in> present w. \<forall>h2 \<in> present w. id_of h1 = id_of h2 \<longrightarrow> h1 = h2)"
proof -
  from assms(1) have c: "consistent w" by (rule reachable_consistent)
  from assms(2) obtain a pr where p: "p = Ptr a pr" by (cases p) auto
  have new: "\<exists>w'. AddProduct p w = Inr (True, w') \<and>
                  FindProductById (id_of p) w' = p \<and>
                  p \<in> set (snd (FindProductsByProducer (producer_of p) [] w')) \<and>
                  present w' = insert p (present w)"
    if "FindProductById (id_of p) w = Null"
  proof -
    from that c have none: "mProductsWithMetasById w (id' pr) = None"
      by (simp add: FindProductById_Null_iff p)
    with c obtain w' e nd where w': "AddProduct (Ptr a pr) w = Inr (True, w')" "consistent w'"
      "pProduct e = Ptr a pr"
      "mProductsWithMetasById w' = (mProductsWithMetasById w)(id' pr \<mapsto> e)"
      using AddProduct_result by blast
    have f: "FindProductById (id_of p) w' = p"
      using w'(3,4) by (simp add: FindProductById_def p)
    have pres: "present w' = insert p (present w)"
      using present_insert [OF none w'(4)] w'(3) by (simp add: p)
    from w'(2) pres have "p \<in> set (snd (FindProductsByProducer (producer_of p) [] w'))"
      by (simp add: group_member)
    with w'(1) f pres show ?thesis unfolding p by blast
  qed
  have dup: "AddProduct p w = Inr (False, w)" if "FindProductById (id_of p) w \<noteq> Null"
  proof -
    from that c obtain e where "mProductsWithMetasById w (id' pr) = Some e"
      by (auto simp: FindProductById_Null_iff p)
    then show ?thesis unfolding p by (rule AddProduct_dup)
  qed
  have uniq: "\<forall>h1 \<in> present w. \<forall>h2 \<in> present w. id_of h1 = id_of h2 \<longrightarrow> h1 = h2"
    using c by (blast intro: present_unique_id)
  from new dup uniq show ?thesis by blast
qed


theorem AddProduct_unique_id_witness:
  "run removal_test_calls empty_warehouse =
     Inr ([RBool True, RBool True, RBool True, RCount 1], removal_test_state) \<and>
   producerA_product1 \<noteq> Null \<and>
   FindProductById ''id1'' removal_test_state = Null \<and>
   (\<exists>w'. AddProduct producerA_product1 removal_test_state = Inr (True, w') \<and>
         FindProductById ''id1'' w' = producerA_product1 \<and>
         producerA_product1 \<in> set (snd (FindProductsByProducer ''producerA'' [] w')) \<and>
         present w' = insert producerA_product1 (present removal_test_state)) \<and>
   producerA_product2 \<noteq> Null \<and>
   FindProductById ''id2'' removal_test_state \<noteq> Null \<and>
   AddProduct producerA_product2 removal_test_state = Inr (False, removal_test_state)"
proof -
  have h: "run removal_test_calls empty_warehouse =
     Inr ([RBool True, RBool True, RBool True, RCount 1], removal_test_state)"
    by (rule run_removal_test)
  have n1: "producerA_product1 \<noteq> Null" and n2: "producerA_product2 \<noteq> Null"
    by (simp_all add: producerA_product1_def producerA_product2_def)
  have i1: "id_of producerA_product1 = ''id1''" and q1: "producer_of producerA_product1 = ''producerA''"
    and i2: "id_of producerA_product2 = ''id2''"
    by (simp_all add: producerA_product1_def producerA_product2_def)
  have f1: "FindProductById ''id1'' removal_test_state = Null"
    by (simp add: FindProductById_def removal_test_state_def)
  have f2: "FindProductById ''id2'' removal_test_state \<noteq> Null"
    by (simp add: FindProductById_def removal_test_state_def producerA_product2_def)
  from AddProduct_unique_id [OF h n1] f1 have a:
    "\<exists>w'. AddProduct producerA_product1 removal_test_state = Inr (True, w') \<and>
         FindProductById ''id1'' w' = producerA_product1 \<and>
         producerA_product1 \<in> set (snd (FindProductsByProducer ''producerA'' [] w')) \<and>
         present w' = insert producerA_product1 (present removal_test_state)"
    by (simp only: i1 q1 simp_thms)
  from AddProduct_unique_id [OF h n2] f2 have b:
    "AddProduct producerA_product2 removal_test_state = Inr (False, removal_test_state)"
    by (simp only: i2 simp_thms)
  from h n1 f1 a n2 f2 b show ?thesis by (intro conjI)
qed

section \<open>Removing\<close>

text \<open>
  C4. In every state reached from the empty warehouse: when an item with id \<open>x\<close> is
  present, \<^verbatim>\<open>RemoveProductById(x)\<close> returns 1 and leaves a state in which the lookup of
  \<open>x\<close> is empty and the item is neither among the products of its former producer nor
  in either index; when no item with id \<open>x\<close> is present, it returns 0 and the state is
  the one of before. The call always returns, and the value returned is 0 or 1.
\<close>

theorem RemoveProductById_effect:
  assumes "run cs empty_warehouse = Inr (rs, w)"
  shows "(FindProductById x w \<noteq> Null \<longrightarrow>
            (\<exists>w'. RemoveProductById x w = Inr (1, w') \<and>
                  FindProductById x w' = Null \<and>
                  FindProductById x w \<notin>
                    set (snd (FindProductsByProducer (producer_of (FindProductById x w)) [] w')) \<and>
                  FindProductById x w \<notin> present w' \<and>
                  FindProductById x w \<notin> second ` set (mProductsByProducer w'))) \<and>
         (FindProductById x w = Null \<longrightarrow> RemoveProductById x w = Inr (0, w)) \<and>
         (\<exists>k w'. RemoveProductById x w = Inr (k, w') \<and> (k = 0 \<or> k = 1))"
proof -
  from assms have c: "consistent w" by (rule reachable_consistent)
  show ?thesis
  proof (cases "mProductsWithMetasById w x")
    case None
    then have "RemoveProductById x w = Inr (0, w)" by (rule RemoveProductById_absent)
    moreover from None have "FindProductById x w = Null" by (simp add: FindProductById_def)
    ultimately show ?thesis by simp
  next
    case (Some e)
    then have f: "FindProductById x w = pProduct e" by (simp add: FindProductById_def)
    from c Some have nn: "FindProductById x w \<noteq> Null" by (simp add: FindProductById_Null_iff)
    from c Some obtain w' where w': "RemoveProductById x w = Inr (1, w')" "consistent w'"
      "mProductsWithMetasById w' = (mProductsWithMetasById w)(x := None)"
      using RemoveProductById_result by blast
    have 1: "FindProductById x w' = Null" using w'(3) by (simp add: FindProductById_def)
    have 2: "pProduct e \<notin> present w'" using present_remove [OF c Some w'(3)] by simp
    with w'(2) have 3: "pProduct e \<notin> set (snd (FindProductsByProducer (producer_of (pProduct e)) [] w'))"
      by (simp add: group_member)
    from 2 w'(2) have 4: "pProduct e \<notin> second ` set (mProductsByProducer w')"
      by (simp add: consistent_present)
    from w'(1) 1 2 3 4 nn show ?thesis unfolding f by blast
  qed
qed

theorem RemoveProductById_effect_witness:
  "run removal_test_calls empty_warehouse =
     Inr ([RBool True, RBool True, RBool True, RCount 1], removal_test_state) \<and>
   FindProductById ''id2'' removal_test_state = producerA_product2 \<and>
   producerA_product2 \<noteq> Null \<and>
   (\<exists>w'. RemoveProductById ''id2'' removal_test_state = Inr (1, w') \<and>
         FindProductById ''id2'' w' = Null \<and>
         producerA_product2 \<notin> set (snd (FindProductsByProducer ''producerA'' [] w')) \<and>
         producerA_product2 \<notin> present w' \<and>
         producerA_product2 \<notin> second ` set (mProductsByProducer w')) \<and>
   FindProductById ''id1'' removal_test_state = Null \<and>
   RemoveProductById ''id1'' removal_test_state = Inr (0, removal_test_state)"
proof -
  have h: "run removal_test_calls empty_warehouse =
     Inr ([RBool True, RBool True, RBool True, RCount 1], removal_test_state)"
    by (rule run_removal_test)
  have n2: "producerA_product2 \<noteq> Null" and q2: "producer_of producerA_product2 = ''producerA''"
    by (simp_all add: producerA_product2_def)
  have f1: "FindProductById ''id1'' removal_test_state = Null"
    by (simp add: FindProductById_def removal_test_state_def)
  have f2: "FindProductById ''id2'' removal_test_state = producerA_product2"
    by (simp add: FindProductById_def removal_test_state_def)
  from RemoveProductById_effect [OF h, of "''id2''"] n2 have a:
    "\<exists>w'. RemoveProductById ''id2'' removal_test_state = Inr (1, w') \<and>
         FindProductById ''id2'' w' = Null \<and>
         producerA_product2 \<notin> set (snd (FindProductsByProducer ''producerA'' [] w')) \<and>
         producerA_product2 \<notin> present w' \<and>
         producerA_product2 \<notin> second ` set (mProductsByProducer w')"
    by (simp only: f2 q2 simp_thms)
  from RemoveProductById_effect [OF h, of "''id1''"] f1 have b:
    "RemoveProductById ''id1'' removal_test_state = Inr (0, removal_test_state)"
    by (simp only: simp_thms)
  from h f2 n2 a f1 b show ?thesis by (intro conjI)
qed

text \<open>
  C6. In every state reached from the empty warehouse in which an item with id \<open>x\<close> is
  present, three calls of \<^verbatim>\<open>RemoveProductById(x)\<close> in a row return 1, 0 and 0, and the
  second and third call leave the state as the first one left it.
\<close>

theorem RemoveProductById_idempotent:
  assumes "run cs empty_warehouse = Inr (rs, w)" and "FindProductById x w \<noteq> Null"
  shows "\<exists>w'. RemoveProductById x w = Inr (1, w') \<and>
              RemoveProductById x w' = Inr (0, w') \<and>
              run [Remove x, Remove x, Remove x] w = Inr ([RCount 1, RCount 0, RCount 0], w')"
proof -
  from assms(1) have c: "consistent w" by (rule reachable_consistent)
  with assms(2) obtain e where "mProductsWithMetasById w x = Some e"
    by (auto simp: FindProductById_Null_iff)
  with c obtain w' where w': "RemoveProductById x w = Inr (1, w')"
      "mProductsWithMetasById w' = (mProductsWithMetasById w)(x := None)"
    using RemoveProductById_result by blast
  from w'(2) have "mProductsWithMetasById w' x = None" by simp
  then have again: "RemoveProductById x w' = Inr (0, w')" by (rule RemoveProductById_absent)
  with w'(1) have "run [Remove x, Remove x, Remove x] w = Inr ([RCount 1, RCount 0, RCount 0], w')"
    by simp
  with w'(1) again show ?thesis by blast
qed

theorem RemoveProductById_idempotent_witness:
  "run removal_test_calls empty_warehouse =
     Inr ([RBool True, RBool True, RBool True, RCount 1], removal_test_state) \<and>
   FindProductById ''id3'' removal_test_state \<noteq> Null \<and>
   (\<exists>w'. RemoveProductById ''id3'' removal_test_state = Inr (1, w') \<and>
         RemoveProductById ''id3'' w' = Inr (0, w') \<and>
         run [Remove ''id3'', Remove ''id3'', Remove ''id3''] removal_test_state =
           Inr ([RCount 1, RCount 0, RCount 0], w'))"
proof -
  have h: "run removal_test_calls empty_warehouse =
     Inr ([RBool True, RBool True, RBool True, RCount 1], removal_test_state)"
    by (rule run_removal_test)
  have f3: "FindProductById ''id3'' removal_test_state \<noteq> Null"
    by (simp add: FindProductById_def removal_test_state_def producerA_product3_def)
  from h f3 RemoveProductById_idempotent [OF h f3] show ?thesis by (intro conjI)
qed

section \<open>Lookup by id and the history of calls\<close>

lemma find_append_first:
  "find P (xs @ ys) = (case find P xs of None \<Rightarrow> find P ys | Some x \<Rightarrow> Some x)"
  by (induction xs) auto

lemma step_FindProductById:
  assumes "step c w = Inr (r, w')"
  shows "FindProductById x w' =
         (if affects x (c, r) then added_handle (Some (c, r)) else FindProductById x w)"
proof (cases c)
  case (Add p)
  show ?thesis
  proof (cases p)
    case Null
    with assms Add show ?thesis by (simp add: AddProduct_Null)
  next
    case (Ptr a pr)
    show ?thesis
    proof (cases "mProductsWithMetasById w (id' pr)")
      case None
      with assms Add Ptr show ?thesis
        by (auto simp: AddProduct_new FindProductById_def)
    next
      case (Some e)
      with assms Add Ptr show ?thesis
        by (auto simp: AddProduct_dup)
    qed
  qed
next
  case (FindById y)
  with assms show ?thesis by auto
next
  case (FindByProducer q)
  with assms show ?thesis by (auto split: prod.splits)
next
  case (Remove y)
  show ?thesis
  proof (cases "mProductsWithMetasById w y")
    case None
    with assms Remove show ?thesis by (auto simp: RemoveProductById_absent)
  next
    case (Some e)
    with assms Remove show ?thesis
      by (auto simp: RemoveProductById_def FindProductById_def split: option.splits if_splits)
  qed
qed

lemma run_length: "run cs w = Inr (rs, w') \<Longrightarrow> length rs = length cs"
proof (induction cs arbitrary: w rs)
  case Nil
  then show ?case by simp
next
  case (Cons c cs)
  then show ?case by (auto split: sum.splits prod.splits)
qed

lemma run_FindProductById:
  "run cs w = Inr (rs, w') \<Longrightarrow>
   FindProductById x w' =
     (case most_recent_affecting x cs rs of
        None \<Rightarrow> FindProductById x w
      | Some cr \<Rightarrow> added_handle (Some cr))"
proof (induction cs arbitrary: w rs)
  case Nil
  then show ?case by (simp add: most_recent_affecting_def)
next
  case (Cons c cs)
  from Cons.prems obtain r w1 rs1 where s: "step c w = Inr (r, w1)"
    and t: "run cs w1 = Inr (rs1, w')" and rs: "rs = r # rs1"
    by (auto split: sum.splits prod.splits)
  have m: "most_recent_affecting x (c # cs) rs =
      (case most_recent_affecting x cs rs1 of
         None \<Rightarrow> if affects x (c, r) then Some (c, r) else None
       | Some cr \<Rightarrow> Some cr)"
    by (simp add: most_recent_affecting_def rs find_append_first split: option.splits)
  from Cons.IH [OF t] step_FindProductById [OF s, of x] show ?case
    by (simp add: m split: option.splits)
qed

text \<open>
  C5. After any sequence of calls from the empty warehouse, \<^verbatim>\<open>FindProductById(x)\<close>
  returns a non-empty handle exactly when the most recent call that affected the id \<open>x\<close>
  (an add of a product with that id that returned true, or a removal of that id that
  returned 1) was an add, that is, a successful add not followed by a successful removal;
  the handle it returns is the one that add was given, and otherwise the empty handle.
  The call returns a value and leaves the state as it was.
\<close>

theorem FindProductById_history:
  assumes "run cs empty_warehouse = Inr (rs, w)"
  shows "FindProductById x w = added_handle (most_recent_affecting x cs rs) \<and>
         (FindProductById x w \<noteq> Null \<longleftrightarrow>
            (\<exists>p r. most_recent_affecting x cs rs = Some (Add p, r))) \<and>
         step (FindById x) w = Inr (RPtr (FindProductById x w), w)"
proof -
  have e: "FindProductById x empty_warehouse = Null"
    by (simp add: FindProductById_def empty_warehouse_def)
  from run_FindProductById [OF assms, of x] e
  have 1: "FindProductById x w = added_handle (most_recent_affecting x cs rs)"
    by (simp split: option.splits)
  have 2: "added_handle (most_recent_affecting x cs rs) \<noteq> Null \<longleftrightarrow>
            (\<exists>p r. most_recent_affecting x cs rs = Some (Add p, r))"
  proof (cases "most_recent_affecting x cs rs")
    case None
    then show ?thesis by simp
  next
    case (Some cr)
    then have "affects x cr"
      unfolding most_recent_affecting_def by (auto simp: find_Some_iff)
    with Some show ?thesis
      by (cases cr; cases "fst cr") auto
  qed
  from 1 2 show ?thesis by simp
qed

theorem FindProductById_history_witness:
  "run removal_test_calls empty_warehouse =
     Inr ([RBool True, RBool True, RBool True, RCount 1], removal_test_state) \<and>
   most_recent_affecting ''id1'' removal_test_calls [RBool True, RBool True, RBool True, RCount 1] =
     Some (Remove ''id1'', RCount 1) \<and>
   FindProductById ''id1'' removal_test_state = Null \<and>
   most_recent_affecting ''id2'' removal_test_calls [RBool True, RBool True, RBool True, RCount 1] =
     Some (Add producerA_product2, RBool True) \<and>
   FindProductById ''id2'' removal_test_state = producerA_product2 \<and>
   FindProductById ''id2'' removal_test_state \<noteq> Null"
proof -
  have h: "run removal_test_calls empty_warehouse =
     Inr ([RBool True, RBool True, RBool True, RCount 1], removal_test_state)"
    by (rule run_removal_test)
  have m1: "most_recent_affecting ''id1'' removal_test_calls [RBool True, RBool True, RBool True, RCount 1] =
     Some (Remove ''id1'', RCount 1)"
    by (simp add: most_recent_affecting_def removal_test_calls_def)
  have m2: "most_recent_affecting ''id2'' removal_test_calls [RBool True, RBool True, RBool True, RCount 1] =
     Some (Add producerA_product2, RBool True)"
    by (simp add: most_recent_affecting_def removal_test_calls_def
        producerA_product1_def producerA_product2_def producerA_product3_def)
  from FindProductById_history [OF h, of "''id1''"]
  have f1: "FindProductById ''id1'' removal_test_state = Null"
    unfolding m1 by simp
  from FindProductById_history [OF h, of "''id2''"]
  have f2: "FindProductById ''id2'' removal_test_state = producerA_product2"
    and f3: "FindProductById ''id2'' removal_test_state \<noteq> Null"
    unfolding m2 by (simp_all add: producerA_product2_def)
  from h m1 f1 m2 f2 f3 show ?thesis by (intro conjI)
qed

section \<open>Failures\<close>

lemma step_total:
  assumes "consistent w" "c \<noteq> Add Null"
  shows "\<exists>r w'. step c w = Inr (r, w')"
proof (cases c)
  case (Add p)
  with assms(2) obtain a pr where p: "p = Ptr a pr" by (cases p) auto
  show ?thesis
  proof (cases "mProductsWithMetasById w (id' pr)")
    case None
    then show ?thesis by (simp add: Add p AddProduct_new)
  next
    case (Some e)
    then show ?thesis by (simp add: Add p AddProduct_dup)
  qed
next
  case (FindById y)
  then show ?thesis by simp
next
  case (FindByProducer q)
  then show ?thesis by (simp split: prod.splits)
next
  case (Remove y)
  show ?thesis
  proof (cases "mProductsWithMetasById w y")
    case None
    then show ?thesis by (simp add: Remove RemoveProductById_absent)
  next
    case (Some e)
    with assms(1) obtain w' where "RemoveProductById y w = Inr (1, w')"
      using RemoveProductById_result by blast
    then show ?thesis by (simp add: Remove)
  qed
qed

lemma run_outcome:
  "consistent w \<Longrightarrow>
   (Add Null \<in> set cs \<longrightarrow> run cs w = Inl AssertionFailed) \<and>
   (Add Null \<notin> set cs \<longrightarrow> (\<exists>rs w'. run cs w = Inr (rs, w')))"
proof (induction cs arbitrary: w)
  case Nil
  then show ?case by simp
next
  case (Cons c cs)
  show ?case
  proof (cases "c = Add Null")
    case True
    then show ?thesis by (simp add: AddProduct_Null)
  next
    case False
    with Cons.prems obtain r w1 where s: "step c w = Inr (r, w1)"
      using step_total by blast
    with Cons.prems have "consistent w1" by (rule consistent_step)
    from Cons.IH [OF this] s False show ?thesis by auto
  qed
qed


text \<open>
  C7. A sequence of calls from the empty warehouse fails only by the assertion of
  \<^verbatim>\<open>AddProduct\<close>, and it does so exactly when some call passes the empty handle; with
  no such call every call returns. In every state reached, an add with a present id
  returns false, a removal of an absent id returns 0, a lookup of an absent id returns
  the empty handle and a lookup of a producer without present items returns 0 and writes
  nothing, each leaving the state as it was.
\<close>

theorem negative_outcomes_are_values:
  "(Add Null \<in> set cs \<longrightarrow> run cs empty_warehouse = Inl AssertionFailed) \<and>
   (Add Null \<notin> set cs \<longrightarrow> (\<exists>rs w. run cs empty_warehouse = Inr (rs, w))) \<and>
   AddProduct Null w0 = Inl AssertionFailed \<and>
   (run cs empty_warehouse = Inr (rs, w) \<longrightarrow>
      (p \<noteq> Null \<longrightarrow> (\<exists>b w'. AddProduct p w = Inr (b, w'))) \<and>
      (p \<noteq> Null \<and> FindProductById (id_of p) w \<noteq> Null \<longrightarrow> AddProduct p w = Inr (False, w)) \<and>
      (\<exists>k w'. RemoveProductById x w = Inr (k, w')) \<and>
      (FindProductById x w = Null \<longrightarrow> RemoveProductById x w = Inr (0, w)) \<and>
      (FindProductById x w = Null \<longrightarrow> step (FindById x) w = Inr (RPtr Null, w)) \<and>
      ({h \<in> present w. producer_of h = q} = {} \<longrightarrow>
         step (FindByProducer q) w = Inr (RFound 0 [], w)))"
proof -
  note o = run_outcome [OF consistent_empty, of cs]
  have reach: "(p \<noteq> Null \<longrightarrow> (\<exists>b w'. AddProduct p w = Inr (b, w'))) \<and>
      (p \<noteq> Null \<and> FindProductById (id_of p) w \<noteq> Null \<longrightarrow> AddProduct p w = Inr (False, w)) \<and>
      (\<exists>k w'. RemoveProductById x w = Inr (k, w')) \<and>
      (FindProductById x w = Null \<longrightarrow> RemoveProductById x w = Inr (0, w)) \<and>
      (FindProductById x w = Null \<longrightarrow> step (FindById x) w = Inr (RPtr Null, w)) \<and>
      ({h \<in> present w. producer_of h = q} = {} \<longrightarrow>
         step (FindByProducer q) w = Inr (RFound 0 [], w))"
    if r: "run cs empty_warehouse = Inr (rs, w)"
  proof -
    from r have c: "consistent w" by (rule reachable_consistent)
    have 1: "\<exists>b w'. AddProduct p w = Inr (b, w')" if "p \<noteq> Null"
    proof -
      from that have "Add p \<noteq> Add Null" by simp
      with c obtain r' w' where "step (Add p) w = Inr (r', w')" using step_total by blast
      then show ?thesis by (cases "AddProduct p w") auto
    qed
    have 2: "AddProduct p w = Inr (False, w)" if "p \<noteq> Null" "FindProductById (id_of p) w \<noteq> Null"
    proof -
      from that(1) obtain a pr where p: "p = Ptr a pr" by (cases p) auto
      with that(2) c obtain e where "mProductsWithMetasById w (id' pr) = Some e"
        by (auto simp: FindProductById_Null_iff)
      then show ?thesis unfolding p by (rule AddProduct_dup)
    qed
    have 3: "\<exists>k w'. RemoveProductById x w = Inr (k, w')"
    proof -
      from c obtain r' w' where "step (Remove x) w = Inr (r', w')" using step_total by blast
      then show ?thesis by (cases "RemoveProductById x w") auto
    qed
    have 4: "RemoveProductById x w = Inr (0, w)" if "FindProductById x w = Null"
      using that c by (simp add: FindProductById_Null_iff RemoveProductById_absent)
    have 5: "step (FindById x) w = Inr (RPtr Null, w)" if "FindProductById x w = Null"
      using that by simp
    have 6: "step (FindByProducer q) w = Inr (RFound 0 [], w)"
      if "{h \<in> present w. producer_of h = q} = {}"
    proof -
      from that consistent_group [OF c, of q]
      have "set (map second (filter (\<lambda>nd. first nd = q) (mProductsByProducer w))) = {}"
        by (simp only:)
      then have "filter (\<lambda>nd. first nd = q) (mProductsByProducer w) = []"
        by (simp only: set_empty map_is_Nil_conv)
      then show ?thesis by (simp add: FindProductsByProducer_filter [OF c])
    qed
    from 1 2 3 4 5 6 show ?thesis by blast
  qed
  from o reach show ?thesis by (simp add: AddProduct_Null)
qed

theorem negative_outcomes_are_values_witness:
  "Add Null \<in> set [Add producerA_product1, Add Null] \<and>
   run [Add producerA_product1, Add Null] empty_warehouse = Inl AssertionFailed \<and>
   Add Null \<notin> set removal_test_calls \<and>
   run removal_test_calls empty_warehouse =
     Inr ([RBool True, RBool True, RBool True, RCount 1], removal_test_state) \<and>
   producerA_product2 \<noteq> Null \<and>
   FindProductById (id_of producerA_product2) removal_test_state \<noteq> Null \<and>
   AddProduct producerA_product2 removal_test_state = Inr (False, removal_test_state) \<and>
   FindProductById ''id1'' removal_test_state = Null \<and>
   RemoveProductById ''id1'' removal_test_state = Inr (0, removal_test_state) \<and>
   step (FindById ''id1'') removal_test_state = Inr (RPtr Null, removal_test_state) \<and>
   {h \<in> present removal_test_state. producer_of h = ''producer42''} = {} \<and>
   step (FindByProducer ''producer42'') removal_test_state = Inr (RFound 0 [], removal_test_state)"
proof -
  have a1: "Add Null \<in> set [Add producerA_product1, Add Null]" by simp
  have a2: "Add Null \<notin> set removal_test_calls"
    by (simp add: removal_test_calls_def producerA_product1_def producerA_product2_def
        producerA_product3_def)
  have h: "run removal_test_calls empty_warehouse =
     Inr ([RBool True, RBool True, RBool True, RCount 1], removal_test_state)"
    by (rule run_removal_test)
  have n2: "producerA_product2 \<noteq> Null" by (simp add: producerA_product2_def)
  have f2: "FindProductById (id_of producerA_product2) removal_test_state \<noteq> Null"
    by (simp add: FindProductById_def removal_test_state_def producerA_product2_def)
  have f1: "FindProductById ''id1'' removal_test_state = Null"
    by (simp add: FindProductById_def removal_test_state_def)
  have g: "{h \<in> present removal_test_state. producer_of h = ''producer42''} = {}"
    by (auto simp: present_def removal_test_state_def producerA_product2_def
        producerA_product3_def split: if_splits)
  from negative_outcomes_are_values [of "[Add producerA_product1, Add Null]"] a1
  have b1: "run [Add producerA_product1, Add Null] empty_warehouse = Inl AssertionFailed"
    by blast
  from negative_outcomes_are_values
    [of removal_test_calls _ "[RBool True, RBool True, RBool True, RCount 1]"
      removal_test_state producerA_product2 "''id1''" "''producer42''"] h n2 f2 f1 g
  have b2: "AddProduct producerA_product2 removal_test_state = Inr (False, removal_test_state)"
    and b3: "RemoveProductById ''id1'' removal_test_state = Inr (0, removal_test_state)"
    and b4: "step (FindById ''id1'') removal_test_state = Inr (RPtr Null, removal_test_state)"
    and b5: "step (FindByProducer ''producer42'') removal_test_state =
       Inr (RFound 0 [], removal_test_state)"
    by blast+
  from a1 b1 a2 h n2 f2 b2 f1 b3 b4 g b5 show ?thesis by (intro conjI)
qed

section \<open>Handle identity and frame\<close>

lemma second_removal:
  "RemoveProductById ''id2'' removal_test_state = Inr (1, second_removal_state)"
  by (simp add: RemoveProductById_def multimap_erase_def removal_test_state_def
      second_removal_state_def)

lemma readd:
  "AddProduct producerA_product1 removal_test_state = Inr (True, readded_state)"
  by (simp add: AddProduct_def unordered_map_emplace_def ProductWithMeta_ctor_def
      multimap_emplace_def fresh_node_def removal_test_state_def readded_state_def
      producerA_product1_def eval_nat_numeral)


lemma step_keeps_lookup:
  assumes "step c w = Inr (r, w')" "FindProductById i w \<noteq> Null" "c \<noteq> Remove i"
  shows "FindProductById i w' = FindProductById i w"
proof -
  from assms(2) obtain e where e: "mProductsWithMetasById w i = Some e"
    by (auto simp: FindProductById_def split: option.splits)
  have "\<not> affects i (c, r)"
  proof (cases c)
    case (Add p)
    show ?thesis
    proof (cases p)
      case Null
      with Add show ?thesis by simp
    next
      case (Ptr a pr)
      show ?thesis
      proof (cases "id' pr = i")
        case True
        with e have "AddProduct (Ptr a pr) w = Inr (False, w)" by (simp add: AddProduct_dup)
        with assms(1) Add Ptr show ?thesis by auto
      next
        case False
        with Add Ptr show ?thesis by simp
      qed
    qed
  next
    case (Remove y)
    with assms(3) show ?thesis by simp
  qed simp_all
  with step_FindProductById [OF assms(1), of i] show ?thesis by simp
qed

lemma run_keeps_lookup:
  "run ds w = Inr (rs, w') \<Longrightarrow> FindProductById i w \<noteq> Null \<Longrightarrow> Remove i \<notin> set ds \<Longrightarrow>
   FindProductById i w' = FindProductById i w"
proof (induction ds arbitrary: w rs)
  case Nil
  then show ?case by simp
next
  case (Cons c ds)
  from Cons.prems(1) obtain r w1 rs1 where s: "step c w = Inr (r, w1)"
    and t: "run ds w1 = Inr (rs1, w')"
    by (auto split: sum.splits prod.splits)
  from Cons.prems(3) have ne: "c \<noteq> Remove i" "Remove i \<notin> set ds" by auto
  from step_keeps_lookup [OF s Cons.prems(2) ne(1)]
  have k: "FindProductById i w1 = FindProductById i w" .
  with Cons.prems(2) have "FindProductById i w1 \<noteq> Null" by simp
  from Cons.IH [OF t this ne(2)] k show ?case by simp
qed

lemma AddProduct_True:
  assumes "AddProduct p w = Inr (True, w')"
  obtains a pr where "p = Ptr a pr" "mProductsWithMetasById w (id' pr) = None"
proof (cases p)
  case Null
  with assms show ?thesis by (simp add: AddProduct_Null)
next
  case (Ptr a pr)
  show ?thesis
  proof (cases "mProductsWithMetasById w (id' pr)")
    case None
    with Ptr that show ?thesis by blast
  next
    case (Some e)
    with assms Ptr show ?thesis by (simp add: AddProduct_dup)
  qed
qed

text \<open>
  C9. After \<^verbatim>\<open>AddProduct(p)\<close> has returned true in a state reached from the empty
  warehouse, and after any further calls none of which removes the id of \<open>p\<close>,
  \<^verbatim>\<open>FindProductById\<close> of that id returns the handle \<open>p\<close> itself (address included), and
  \<^verbatim>\<open>FindProductsByProducer\<close> of its producer writes that same handle, once.
\<close>

theorem handle_identity:
  assumes "run cs empty_warehouse = Inr (rs, w)"
    and "AddProduct p w = Inr (True, w1)"
    and "run ds w1 = Inr (rs1, w2)"
    and "Remove (id_of p) \<notin> set ds"
  shows "FindProductById (id_of p) w2 = p \<and>
         p \<in> set (snd (FindProductsByProducer (producer_of p) [] w2)) \<and>
         count_list (snd (FindProductsByProducer (producer_of p) [] w2)) p = 1"
proof -
  from assms(1) have c: "consistent w" by (rule reachable_consistent)
  from c assms(2) have c1: "consistent w1" by (rule consistent_AddProduct)
  from c1 assms(3) have c2: "consistent w2" by (rule consistent_run)
  from assms(2) obtain a pr where p: "p = Ptr a pr"
    and none: "mProductsWithMetasById w (id' pr) = None"
    by (rule AddProduct_True)
  from none assms(2) have f1: "FindProductById (id_of p) w1 = p"
    by (auto simp: AddProduct_new p FindProductById_def)
  then have "FindProductById (id_of p) w1 \<noteq> Null" by (simp add: p)
  from run_keeps_lookup [OF assms(3) this assms(4)] f1
  have f2: "FindProductById (id_of p) w2 = p" by simp
  then have "p \<in> present w2"
    unfolding present_def FindProductById_def p
    by (auto split: option.splits)
  with c2 have m: "p \<in> set (snd (FindProductsByProducer (producer_of p) [] w2))"
    by (simp add: group_member)
  have "distinct (snd (FindProductsByProducer (producer_of p) [] w2))"
    using consistent_group_distinct [OF c2] by (simp add: FindProductsByProducer_filter [OF c2])
  with m have "count_list (snd (FindProductsByProducer (producer_of p) [] w2)) p = 1"
    by (simp add: count_list_distinct)
  with f2 m show ?thesis by simp
qed

theorem handle_identity_witness:
  "run removal_test_calls empty_warehouse =
     Inr ([RBool True, RBool True, RBool True, RCount 1], removal_test_state) \<and>
   AddProduct producerA_product1 removal_test_state = Inr (True, readded_state) \<and>
   run [Add producerA_product1, Remove ''id9''] readded_state =
     Inr ([RBool False, RCount 0], readded_state) \<and>
   Remove (id_of producerA_product1) \<notin> set [Add producerA_product1, Remove ''id9''] \<and>
   FindProductById ''id1'' readded_state = producerA_product1 \<and>
   producerA_product1 \<in> set (snd (FindProductsByProducer ''producerA'' [] readded_state)) \<and>
   count_list (snd (FindProductsByProducer ''producerA'' [] readded_state)) producerA_product1 = 1"
proof -
  have h: "run removal_test_calls empty_warehouse =
     Inr ([RBool True, RBool True, RBool True, RCount 1], removal_test_state)"
    by (rule run_removal_test)
  have a: "AddProduct producerA_product1 removal_test_state = Inr (True, readded_state)"
    by (rule readd)
  have i1: "id_of producerA_product1 = ''id1''" and q1: "producer_of producerA_product1 = ''producerA''"
    by (simp_all add: producerA_product1_def)
  have d: "run [Add producerA_product1, Remove ''id9''] readded_state =
     Inr ([RBool False, RCount 0], readded_state)"
    by (simp add: AddProduct_def unordered_map_emplace_def RemoveProductById_def
        readded_state_def producerA_product1_def)
  have n: "Remove (id_of producerA_product1) \<notin> set [Add producerA_product1, Remove ''id9'']"
    by (simp add: i1)
  from handle_identity [OF h a d n]
  have r: "FindProductById ''id1'' readded_state = producerA_product1 \<and>
     producerA_product1 \<in> set (snd (FindProductsByProducer ''producerA'' [] readded_state)) \<and>
     count_list (snd (FindProductsByProducer ''producerA'' [] readded_state)) producerA_product1 = 1"
    by (simp only: i1 q1)
  from h a d n r show ?thesis by (intro conjI) simp_all
qed

lemma other_group_after_remove:
  assumes "consistent w" "mProductsWithMetasById w x = Some e" "q \<noteq> producer_of (pProduct e)"
  shows "filter (\<lambda>nd. first nd = q) (filter (\<lambda>nd. second nd \<noteq> pProduct e) (mProductsByProducer w)) =
         filter (\<lambda>nd. first nd = q) (mProductsByProducer w)"
proof -
  have "first nd = q \<longrightarrow> second nd \<noteq> pProduct e" if "nd \<in> set (mProductsByProducer w)" for nd
  proof -
    from assms(1) that have "first nd = producer_of (second nd)" by (rule consistent_node)
    with assms(3) show ?thesis by auto
  qed
  then show ?thesis by (auto simp: filter_filter intro!: filter_cong)
qed

lemma group_after_remove:
  "map second (filter (\<lambda>nd. first nd = q) (filter (\<lambda>nd. second nd \<noteq> h) m)) =
   removeAll h (map second (filter (\<lambda>nd. first nd = q) m))"
  by (induction m) auto

text \<open>
  C10. In a state reached from the empty warehouse: an \<^verbatim>\<open>AddProduct(p)\<close> that returns true
  leaves the lookup of every other id and the lookup of every other producer as they
  were; a \<^verbatim>\<open>RemoveProductById(x)\<close> that returns 1 leaves the lookup of every other id
  and the lookup of every other producer as they were, and the lookup of the removed
  item's producer returns what it returned before without that item, the others in
  their order.
\<close>

theorem frame_of_add_and_remove:
  assumes "run cs empty_warehouse = Inr (rs, w)"
  shows "(AddProduct p w = Inr (True, wa) \<longrightarrow>
            (\<forall>y. y \<noteq> id_of p \<longrightarrow> FindProductById y wa = FindProductById y w) \<and>
            (\<forall>q out. q \<noteq> producer_of p \<longrightarrow>
               FindProductsByProducer q out wa = FindProductsByProducer q out w)) \<and>
         (RemoveProductById x w = Inr (1, wr) \<longrightarrow>
            (\<forall>y. y \<noteq> x \<longrightarrow> FindProductById y wr = FindProductById y w) \<and>
            (\<forall>q out. q \<noteq> producer_of (FindProductById x w) \<longrightarrow>
               FindProductsByProducer q out wr = FindProductsByProducer q out w) \<and>
            snd (FindProductsByProducer (producer_of (FindProductById x w)) [] wr) =
              removeAll (FindProductById x w)
                (snd (FindProductsByProducer (producer_of (FindProductById x w)) [] w)))"
proof -
  from assms have c: "consistent w" by (rule reachable_consistent)
  have add: "(\<forall>y. y \<noteq> id_of p \<longrightarrow> FindProductById y wa = FindProductById y w) \<and>
            (\<forall>q out. q \<noteq> producer_of p \<longrightarrow>
               FindProductsByProducer q out wa = FindProductsByProducer q out w)"
    if a: "AddProduct p w = Inr (True, wa)"
  proof -
    from c a have ca: "consistent wa" by (rule consistent_AddProduct)
    from a obtain a' pr where p: "p = Ptr a' pr"
      and none: "mProductsWithMetasById w (id' pr) = None"
      by (rule AddProduct_True)
    from c none obtain w' e nd where r: "AddProduct (Ptr a' pr) w = Inr (True, w')"
      "mProductsWithMetasById w' = (mProductsWithMetasById w)(id' pr \<mapsto> e)"
      "first nd = producer pr"
      "mProductsByProducer w' = multimap_insert nd (mProductsByProducer w)"
      using AddProduct_result by blast
    from r(1) a have w': "w' = wa" by (simp add: p)
    have 1: "FindProductById y wa = FindProductById y w" if "y \<noteq> id_of p" for y
      using that r(2) by (simp add: FindProductById_def p w' [symmetric])
    have 2: "FindProductsByProducer q out wa = FindProductsByProducer q out w"
      if "q \<noteq> producer_of p" for q out
    proof -
      from c have "sorted (map first (mProductsByProducer w))" by (simp add: consistent_def)
      with that r(3) have "filter (\<lambda>nd. first nd = q) (mProductsByProducer wa) =
          filter (\<lambda>nd. first nd = q) (mProductsByProducer w)"
        by (simp add: w' [symmetric] r(4) filter_multimap_insert p)
      then show ?thesis
        by (simp add: FindProductsByProducer_filter [OF c] FindProductsByProducer_filter [OF ca])
    qed
    from 1 2 show ?thesis by blast
  qed
  have rem: "(\<forall>y. y \<noteq> x \<longrightarrow> FindProductById y wr = FindProductById y w) \<and>
            (\<forall>q out. q \<noteq> producer_of (FindProductById x w) \<longrightarrow>
               FindProductsByProducer q out wr = FindProductsByProducer q out w) \<and>
            snd (FindProductsByProducer (producer_of (FindProductById x w)) [] wr) =
              removeAll (FindProductById x w)
                (snd (FindProductsByProducer (producer_of (FindProductById x w)) [] w))"
    if a: "RemoveProductById x w = Inr (1, wr)"
  proof -
    from a obtain e where e: "mProductsWithMetasById w x = Some e"
      by (cases "mProductsWithMetasById w x") (auto simp: RemoveProductById_absent)
    then have f: "FindProductById x w = pProduct e" by (simp add: FindProductById_def)
    from c e obtain w' where r: "RemoveProductById x w = Inr (1, w')" "consistent w'"
      "mProductsWithMetasById w' = (mProductsWithMetasById w)(x := None)"
      "mProductsByProducer w' = filter (\<lambda>nd. second nd \<noteq> pProduct e) (mProductsByProducer w)"
      using RemoveProductById_result by blast
    from r(1) a have w': "w' = wr" by simp
    note r = r [unfolded w']
    have 1: "FindProductById y wr = FindProductById y w" if "y \<noteq> x" for y
      using that r(3) by (simp add: FindProductById_def)
    have 2: "FindProductsByProducer q out wr = FindProductsByProducer q out w"
      if "q \<noteq> producer_of (pProduct e)" for q out
      using other_group_after_remove [OF c e that]
      by (simp add: FindProductsByProducer_filter [OF c] FindProductsByProducer_filter [OF r(2)] r(4))
    have 3: "snd (FindProductsByProducer q [] wr) =
        removeAll (pProduct e) (snd (FindProductsByProducer q [] w))" for q
    proof -
      have "snd (FindProductsByProducer q [] wr) =
          map second (filter (\<lambda>nd. first nd = q)
            (filter (\<lambda>nd. second nd \<noteq> pProduct e) (mProductsByProducer w)))"
        by (simp add: FindProductsByProducer_filter [OF r(2)] r(4) del: filter_filter)
      also have "\<dots> = removeAll (pProduct e)
          (map second (filter (\<lambda>nd. first nd = q) (mProductsByProducer w)))"
        by (rule group_after_remove)
      also have "\<dots> = removeAll (pProduct e) (snd (FindProductsByProducer q [] w))"
        by (simp add: FindProductsByProducer_filter [OF c])
      finally show ?thesis .
    qed
    from 1 2 3 show ?thesis unfolding f by blast
  qed
  from add rem show ?thesis by blast
qed


theorem frame_of_add_and_remove_witness:
  "run removal_test_calls empty_warehouse =
     Inr ([RBool True, RBool True, RBool True, RCount 1], removal_test_state) \<and>
   AddProduct producerA_product1 removal_test_state = Inr (True, readded_state) \<and>
   ''id2'' \<noteq> id_of producerA_product1 \<and>
   FindProductById ''id2'' readded_state = FindProductById ''id2'' removal_test_state \<and>
   ''producerB'' \<noteq> producer_of producerA_product1 \<and>
   FindProductsByProducer ''producerB'' [] readded_state =
     FindProductsByProducer ''producerB'' [] removal_test_state \<and>
   RemoveProductById ''id2'' removal_test_state = Inr (1, second_removal_state) \<and>
   ''id3'' \<noteq> ''id2'' \<and>
   FindProductById ''id3'' second_removal_state = FindProductById ''id3'' removal_test_state \<and>
   snd (FindProductsByProducer ''producerA'' [] second_removal_state) =
     removeAll producerA_product2 (snd (FindProductsByProducer ''producerA'' [] removal_test_state))"
proof -
  have h: "run removal_test_calls empty_warehouse =
     Inr ([RBool True, RBool True, RBool True, RCount 1], removal_test_state)"
    by (rule run_removal_test)
  have i: "''id2'' \<noteq> id_of producerA_product1" "''producerB'' \<noteq> producer_of producerA_product1"
    "''id3'' \<noteq> ''id2''"
    by (simp_all add: producerA_product1_def)
  have f2: "FindProductById ''id2'' removal_test_state = producerA_product2"
    by (simp add: FindProductById_def removal_test_state_def)
  have q2: "producer_of producerA_product2 = ''producerA''"
    by (simp add: producerA_product2_def)
  note t = frame_of_add_and_remove
    [OF h, of producerA_product1 readded_state "''id2''" second_removal_state,
      unfolded f2 q2]
  note ta = t [THEN conjunct1, THEN mp, OF readd]
  note tr = t [THEN conjunct2, THEN mp, OF second_removal]
  have a1: "FindProductById ''id2'' readded_state = FindProductById ''id2'' removal_test_state"
    by (rule ta [THEN conjunct1, THEN spec, THEN mp, OF i(1)])
  have a2: "FindProductsByProducer ''producerB'' [] readded_state =
     FindProductsByProducer ''producerB'' [] removal_test_state"
    by (rule ta [THEN conjunct2, THEN spec, THEN spec, THEN mp, OF i(2)])
  have r1: "FindProductById ''id3'' second_removal_state = FindProductById ''id3'' removal_test_state"
    by (rule tr [THEN conjunct1, THEN spec, THEN mp, OF i(3)])
  have r2: "snd (FindProductsByProducer ''producerA'' [] second_removal_state) =
     removeAll producerA_product2 (snd (FindProductsByProducer ''producerA'' [] removal_test_state))"
    by (rule tr [THEN conjunct2, THEN conjunct2])
  from h readd i(1) a1 i(2) a2 second_removal i(3) r1 r2 show ?thesis by (intro conjI)
qed

end
